theory Spec2Isabelle
  imports Complex_Main
begin

section \<open>Conventions of the embedding\<close>

text \<open>
  The retrieval, excerpt selection, confidence and synthesis functions of \<^verbatim>\<open>main.py\<close> are
  translated function by function. Python \<^verbatim>\<open>float\<close> values are read as real numbers
  (rounding is not modelled); Python \<^verbatim>\<open>str\<close> values are \<^typ>\<open>string\<close>, one
  \<^typ>\<open>char\<close> standing for one character; a \<^verbatim>\<open>dict\<close> is an association list
  in insertion order read with \<^const>\<open>map_of\<close>; a Python \<^verbatim>\<open>set\<close> whose iteration
  order the interpreter leaves open is a duplicate-free list, and the theorems speak about
  it only through \<^const>\<open>set\<close>, \<^const>\<open>length\<close> and \<^const>\<open>distinct\<close>. Every exception
  the code can raise is a value of \<open>py_error\<close>.
\<close>

datatype py_error =
    LookupError
  | ValueError
  | TypeError
  | ZeroDivisionError
  | OverflowError
  | RequestError string

text \<open>Python's \<^verbatim>\<open>xs[:k]\<close>: a negative \<open>k\<close> counts from the end.\<close>

definition slice_to :: "'a list \<Rightarrow> int \<Rightarrow> 'a list" where
  "slice_to xs k =
     (if 0 \<le> k then take (nat k) xs else take (nat (int (length xs) + k)) xs)"

text \<open>\<^verbatim>\<open>node_id.split(':', 1)\<close>, unpacked into two names: no colon is a ValueError.\<close>

fun split_colon :: "string \<Rightarrow> (string \<times> string) option" where
  "split_colon [] = None"
| "split_colon (c # cs) =
     (if c = CHR '':'' then Some ([], cs)
      else (case split_colon cs of None \<Rightarrow> None | Some (a, b) \<Rightarrow> Some (c # a, b)))"

section \<open>Data model\<close>

record verse_node =
  v_id :: string
  chapter_num :: int
  verse_num :: int
  shloka :: string
  transliteration :: string
  verse_translations :: "(string \<times> string) list"
  word_meaning :: "(string \<times> string) list"

record concept_node =
  c_term :: string
  meaning :: string
  mentioned_in :: "string list"

record commentary_node =
  cn_id :: string
  cn_school :: string
  status :: string
  original_author :: string
  substitute_author :: string
  cn_text :: string
  verse_id :: string

record search_result =
  verse :: verse_node
  score :: real
  provenance_path :: "string list"
  related_concepts :: "string list"
  commentaries :: "commentary_node list"
  support_count :: nat

record kg_data =
  verses :: "(string \<times> verse_node) list"
  concepts :: "(string \<times> concept_node) list"
  kg_commentaries :: "(string \<times> commentary_node) list"

text \<open>The per-verse accumulator that \<^verbatim>\<open>defaultdict(lambda: {...})\<close> creates on first access.\<close>

record candidate =
  scores :: "real list"
  provenance_paths :: "string list"
  cand_concepts :: "string list"
  cand_support :: nat

definition new_candidate :: candidate where
  "new_candidate = \<lparr>scores = [], provenance_paths = [], cand_concepts = [], cand_support = 0\<rparr>"

section \<open>Candidate aggregation: \<^verbatim>\<open>perform_search\<close>\<close>

text \<open>
  The arrow of the provenance strings is stored in the source file as the three characters
  U+201A, U+00DC, U+00ED; the first lies outside the 8-bit range, so the literal is spelled
  here by the bytes of the file.
\<close>

definition arrow :: string where
  "arrow = [CHR 0xE2, CHR 0x80, CHR 0x9A, CHR 0xC3, CHR 0x9C, CHR 0xC3, CHR 0xAD]"

definition path_verse :: "string \<Rightarrow> string" where
  "path_verse node_key = ''Query '' @ arrow @ '' Verse('' @ node_key @ '')''"

definition path_commentary :: "string \<Rightarrow> string \<Rightarrow> string" where
  "path_commentary sch vid =
     ''Query '' @ arrow @ '' Commentary('' @ sch @ '') '' @ arrow @ '' Verse('' @ vid @ '')''"

definition path_concept :: "string \<Rightarrow> string \<Rightarrow> string" where
  "path_concept node_key vid =
     ''Query '' @ arrow @ '' Concept('' @ node_key @ '') '' @ arrow @ '' Verse('' @ vid @ '')''"

text \<open>
  \<^verbatim>\<open>candidate_verses[k]\<close> followed by in-place updates: the entry is created at the end of
  the dictionary when the key is new, and updated where it stands otherwise.
\<close>

fun upd_candidate ::
  "string \<Rightarrow> (candidate \<Rightarrow> candidate) \<Rightarrow> (string \<times> candidate) list \<Rightarrow> (string \<times> candidate) list"
where
  "upd_candidate k f [] = [(k, f new_candidate)]"
| "upd_candidate k f ((k', a) # rest) =
     (if k' = k then (k', f a) # rest else (k', a) # upd_candidate k f rest)"

text \<open>The three statements of the verse and the commentary branch.\<close>

definition add_hit :: "real \<Rightarrow> string \<Rightarrow> candidate \<Rightarrow> candidate" where
  "add_hit s p a =
     a\<lparr>scores := scores a @ [s],
       provenance_paths := provenance_paths a @ [p],
       cand_support := cand_support a + 1\<rparr>"

text \<open>The four statements of the concept branch; \<^verbatim>\<open>set.add\<close> keeps one copy of the term.\<close>

definition add_concept_hit :: "real \<Rightarrow> string \<Rightarrow> string \<Rightarrow> candidate \<Rightarrow> candidate" where
  "add_concept_hit s p node_key a =
     a\<lparr>scores := scores a @ [s],
       provenance_paths := provenance_paths a @ [p],
       cand_concepts := (if node_key \<in> set (cand_concepts a) then cand_concepts a
                         else cand_concepts a @ [node_key]),
       cand_support := cand_support a + 1\<rparr>"

text \<open>
  One iteration of the loop over \<^verbatim>\<open>zip(scores[0], indices[0])\<close>. The mapping
  \<^verbatim>\<open>id_to_node\<close> is read by index, and an index it does not hold raises; the lookups in the
  knowledge store use \<^verbatim>\<open>.get\<close> and skip the hit instead.
\<close>

definition process_hit ::
  "(int \<times> string) list \<Rightarrow> kg_data \<Rightarrow> (string \<times> candidate) list \<Rightarrow> real \<times> int
   \<Rightarrow> py_error + (string \<times> candidate) list"
where
  "process_hit id_to_node kg cands hit =
     (case hit of (s, idx) \<Rightarrow>
        if idx = - 1 then Inr cands
        else (case map_of id_to_node idx of
            None \<Rightarrow> Inl LookupError
          | Some node_id \<Rightarrow>
             (case split_colon node_id of
                None \<Rightarrow> Inl ValueError
              | Some (node_type, node_key) \<Rightarrow>
                  if node_type = ''verse'' then
                    Inr (upd_candidate node_key (add_hit s (path_verse node_key)) cands)
                  else if node_type = ''commentary'' then
                    (case map_of (kg_commentaries kg) node_key of
                       None \<Rightarrow> Inr cands
                     | Some commentary \<Rightarrow>
                         Inr (upd_candidate (verse_id commentary)
                               (add_hit (s * 0.9)
                                  (path_commentary (cn_school commentary) (verse_id commentary)))
                               cands))
                  else if node_type = ''concept'' then
                    (case map_of (concepts kg) node_key of
                       None \<Rightarrow> Inr cands
                     | Some concept \<Rightarrow>
                         Inr (foldl (\<lambda>cs vid.
                                 upd_candidate vid
                                   (add_concept_hit (s * 0.8) (path_concept node_key vid) node_key) cs)
                               cands (mentioned_in concept)))
                  else Inr cands)))"

fun process_hits ::
  "(int \<times> string) list \<Rightarrow> kg_data \<Rightarrow> (string \<times> candidate) list \<Rightarrow> (real \<times> int) list
   \<Rightarrow> py_error + (string \<times> candidate) list"
where
  "process_hits id_to_node kg cands [] = Inr cands"
| "process_hits id_to_node kg cands (h # hs) =
     (case process_hit id_to_node kg cands h of
        Inl e \<Rightarrow> Inl e
      | Inr cands' \<Rightarrow> process_hits id_to_node kg cands' hs)"

text \<open>\<^verbatim>\<open>np.mean\<close> of a non-empty list.\<close>

definition mean :: "real list \<Rightarrow> real" where
  "mean xs = sum_list xs / real (length xs)"

definition final_score :: "candidate \<Rightarrow> real" where
  "final_score d =
     (let avg_score = (if scores d \<noteq> [] then mean (scores d) else 0);
          concept_boost = real (length (cand_concepts d)) * 0.1;
          support_boost = min (real (cand_support d) * 0.05) 0.2
      in avg_score + concept_boost + support_boost)"

text \<open>The loop that creates the results; a key with no verse in the store is skipped.\<close>

fun create_results :: "kg_data \<Rightarrow> (string \<times> candidate) list \<Rightarrow> search_result list" where
  "create_results kg [] = []"
| "create_results kg ((vid, d) # rest) =
     (case map_of (verses kg) vid of
        None \<Rightarrow> create_results kg rest
      | Some v \<Rightarrow>
          \<lparr>verse = v,
           score = final_score d,
           provenance_path = remdups (provenance_paths d),
           related_concepts = cand_concepts d,
           commentaries = filter (\<lambda>c. verse_id c = vid) (map snd (kg_commentaries kg)),
           support_count = cand_support d\<rparr> # create_results kg rest)"

text \<open>
  \<^verbatim>\<open>perform_search\<close>. The embedding model and the vector index are outside the repository:
  \<open>model_loaded\<close> says whether \<^verbatim>\<open>load_embedding_model\<close> returned a model, and the index,
  when present, is the function from the query and \<open>k\<close> to the hits that encoding the
  query and searching return. \<^verbatim>\<open>list.sort(reverse=True)\<close> is stable, as \<^const>\<open>sort_key\<close> is.
\<close>

definition perform_search ::
  "string \<Rightarrow> int \<Rightarrow> (string \<Rightarrow> int \<Rightarrow> (real \<times> int) list) option \<Rightarrow> (int \<times> string) list option
   \<Rightarrow> kg_data option \<Rightarrow> bool \<Rightarrow> py_error + search_result list"
where
  "perform_search query top_k index mappings kg model_loaded =
     (case (index, mappings, kg) of
        (Some search, Some id_to_node, Some kgd) \<Rightarrow>
          if \<not> model_loaded then Inr []
          else (case process_hits id_to_node kgd [] (search query (top_k * 3)) of
                  Inl e \<Rightarrow> Inl e
                | Inr cands \<Rightarrow>
                    Inr (slice_to (sort_key (\<lambda>r. - score r) (create_results kgd cands)) top_k))
      | _ \<Rightarrow> Inr [])"

section \<open>The aggregation formula in the words of the specification\<close>

text \<open>
  What one raw hit contributes, as a list of (target verse, contributed similarity,
  contributing concept term if any, provenance path): a verse hit contributes its similarity to
  that verse, a commentary hit 0.9 times its similarity to the owning verse, a concept hit 0.8
  times its similarity to every verse of the membership list. A hit that does not resolve
  contributes nothing.
\<close>

definition contributions ::
  "(int \<times> string) list \<Rightarrow> kg_data \<Rightarrow> real \<times> int \<Rightarrow> (string \<times> real \<times> string option \<times> string) list"
where
  "contributions id_to_node kg hit =
     (case hit of (s, idx) \<Rightarrow>
        if idx = - 1 then []
        else (case map_of id_to_node idx of
            None \<Rightarrow> []
          | Some node_id \<Rightarrow>
             (case split_colon node_id of
                None \<Rightarrow> []
              | Some (node_type, node_key) \<Rightarrow>
                  if node_type = ''verse'' then [(node_key, s, None, path_verse node_key)]
                  else if node_type = ''commentary'' then
                    (case map_of (kg_commentaries kg) node_key of
                       None \<Rightarrow> []
                     | Some c \<Rightarrow>
                         [(verse_id c, s * 0.9, None, path_commentary (cn_school c) (verse_id c))])
                  else if node_type = ''concept'' then
                    (case map_of (concepts kg) node_key of
                       None \<Rightarrow> []
                     | Some c \<Rightarrow>
                         map (\<lambda>vid. (vid, s * 0.8, Some node_key, path_concept node_key vid))
                           (mentioned_in c))
                  else [])))"

definition all_contributions ::
  "(int \<times> string) list \<Rightarrow> kg_data \<Rightarrow> (real \<times> int) list \<Rightarrow> (string \<times> real \<times> string option \<times> string) list"
where
  "all_contributions id_to_node kg hits = concat (map (contributions id_to_node kg) hits)"

definition contributed_sims ::
  "(int \<times> string) list \<Rightarrow> kg_data \<Rightarrow> (real \<times> int) list \<Rightarrow> string \<Rightarrow> real list"
where
  "contributed_sims id_to_node kg hits v =
     map (\<lambda>c. fst (snd c)) (filter (\<lambda>c. fst c = v) (all_contributions id_to_node kg hits))"

definition contributing_terms ::
  "(int \<times> string) list \<Rightarrow> kg_data \<Rightarrow> (real \<times> int) list \<Rightarrow> string \<Rightarrow> string set"
where
  "contributing_terms id_to_node kg hits v =
     {k. \<exists>s p. (v, s, Some k, p) \<in> set (all_contributions id_to_node kg hits)}"

definition contrib_upd :: "string \<times> real \<times> string option \<times> string \<Rightarrow> candidate \<Rightarrow> candidate" where
  "contrib_upd c =
     (case c of (v, s, None, p) \<Rightarrow> add_hit s p
              | (v, s, Some k, p) \<Rightarrow> add_concept_hit s p k)"

definition apply_contrib ::
  "(string \<times> candidate) list \<Rightarrow> string \<times> real \<times> string option \<times> string \<Rightarrow> (string \<times> candidate) list"
where
  "apply_contrib cs c = upd_candidate (fst c) (contrib_upd c) cs"

definition get_cand :: "(string \<times> candidate) list \<Rightarrow> string \<Rightarrow> candidate" where
  "get_cand cands v = (case map_of cands v of None \<Rightarrow> new_candidate | Some a \<Rightarrow> a)"


section \<open>A small knowledge store for concrete runs\<close>

definition ex_verse :: "string \<Rightarrow> verse_node" where
  "ex_verse k = \<lparr>v_id = k, chapter_num = 0, verse_num = 0, shloka = [], transliteration = [],
                 verse_translations = [], word_meaning = []\<rparr>"

definition ex_kg :: kg_data where
  "ex_kg = \<lparr>verses = [(''2:47'', ex_verse ''2:47''), (''3:35'', ex_verse ''3:35'')],
            concepts = [(''dharma'',
               \<lparr>c_term = ''dharma'', meaning = ''duty'', mentioned_in = [''2:47'', ''3:35'']\<rparr>)],
            kg_commentaries = []\<rparr>"

definition ex_id_to_node :: "(int \<times> string) list" where
  "ex_id_to_node = [(0, ''verse:2:47''), (1, ''concept:dharma'')]"

definition ex_search :: "real list \<Rightarrow> string \<Rightarrow> int \<Rightarrow> (real \<times> int) list" where
  "ex_search sims q k = zip sims [0, 1]"

text \<open>An answer of the index that ends with a padding entry: id -1 and the lowest 32-bit float.\<close>

definition ex_search_padded :: "string \<Rightarrow> int \<Rightarrow> (real \<times> int) list" where
  "ex_search_padded q k =
     [(0.9, 0), (0.7, 1), (- 340282346638528859811704183484516925440, - 1)]"

definition ex_result :: "string \<Rightarrow> real \<Rightarrow> string list \<Rightarrow> string list \<Rightarrow> nat \<Rightarrow> search_result" where
  "ex_result k s ps cs n =
     \<lparr>verse = ex_verse k, score = s, provenance_path = ps, related_concepts = cs,
      commentaries = [], support_count = n\<rparr>"


section \<open>Strings\<close>

text \<open>
  The characters that \<^verbatim>\<open>str.strip()\<close> and \<^verbatim>\<open>str.split()\<close> treat as white space, within the
  8-bit range.
\<close>

definition is_space :: "char \<Rightarrow> bool" where
  "is_space c \<longleftrightarrow>
     c \<in> set [CHR 0x09, CHR 0x0A, CHR 0x0B, CHR 0x0C, CHR 0x0D, CHR 0x1C, CHR 0x1D, CHR 0x1E,
              CHR 0x1F, CHR 0x20, CHR 0x85, CHR 0xA0]"

definition strip :: "string \<Rightarrow> string" where
  "strip s = rev (dropWhile is_space (rev (dropWhile is_space s)))"

text \<open>\<^verbatim>\<open>s.split()\<close>: the maximal runs of characters that are not white space.\<close>

fun split_acc :: "string \<Rightarrow> string \<Rightarrow> string list" where
  "split_acc cur [] = (if cur = [] then [] else [cur])"
| "split_acc cur (c # cs) =
     (if is_space c then (if cur = [] then split_acc [] cs else cur # split_acc [] cs)
      else split_acc (cur @ [c]) cs)"

definition split_ws :: "string \<Rightarrow> string list" where
  "split_ws s = split_acc [] s"

text \<open>\<^verbatim>\<open>' '.join(ws)\<close>.\<close>

fun join_space :: "string list \<Rightarrow> string" where
  "join_space [] = []"
| "join_space [w] = w"
| "join_space (w # ws) = w @ '' '' @ join_space ws"

text \<open>\<^verbatim>\<open>str(n)\<close> of a non-negative integer, as the f-strings render lengths and status codes.\<close>

fun str_nat :: "nat \<Rightarrow> string" where
  "str_nat n =
     (if n < 10 then [''0123456789'' ! n]
      else str_nat (n div 10) @ [''0123456789'' ! (n mod 10)])"

declare str_nat.simps [simp del]

definition str_int :: "int \<Rightarrow> string" where
  "str_int i = (if i < 0 then CHR ''-'' # str_nat (nat (- i)) else str_nat (nat i))"

text \<open>\<^verbatim>\<open>str.lower()\<close> on the 8-bit range: the ASCII and the Latin-1 capital letters.\<close>

definition lower_char :: "char \<Rightarrow> char" where
  "lower_char c =
     (let n = (of_char c :: nat)
      in if (65 \<le> n \<and> n \<le> 90) \<or> (192 \<le> n \<and> n \<le> 222 \<and> n \<noteq> 215) then char_of (n + 32) else c)"

definition lower :: "string \<Rightarrow> string" where
  "lower s = map lower_char s"

section \<open>Sentence splitting: \<^verbatim>\<open>split_text_into_sentences\<close>\<close>

definition is_terminal :: "char \<Rightarrow> bool" where
  "is_terminal c \<longleftrightarrow> c = CHR ''.'' \<or> c = CHR ''!'' \<or> c = CHR ''?''"

text \<open>\<^verbatim>\<open>re.split(r'[.!?]+', text)\<close>: the pieces between maximal runs of terminal punctuation.\<close>

function re_split_acc :: "string \<Rightarrow> string \<Rightarrow> string list" where
  "re_split_acc cur [] = [cur]"
| "re_split_acc cur (c # cs) =
     (if is_terminal c then cur # re_split_acc [] (dropWhile is_terminal cs)
      else re_split_acc (cur @ [c]) cs)"
  by pat_completeness auto
termination
  by (relation "measure (\<lambda>(cur, s). length s)")
     (auto simp: length_dropWhile_le less_Suc_eq_le)

definition re_split :: "string \<Rightarrow> string list" where
  "re_split s = re_split_acc [] s"

text \<open>
  The only caller passes no \<^verbatim>\<open>max_tokens\<close>, so the default 200 applies: the test
  \<^verbatim>\<open>len(sentence.split()) * 1.3 <= 200\<close> holds for up to 153 words, and the chunk size
  \<^verbatim>\<open>int(200 / 1.3)\<close> is 153.
\<close>

definition max_tokens :: nat where
  "max_tokens = 200"

definition chunk_size :: nat where
  "chunk_size = 153"

text \<open>The slices \<^verbatim>\<open>words[i:i + chunk_size]\<close> for \<^verbatim>\<open>i\<close> in \<^verbatim>\<open>range(0, len(words), chunk_size)\<close>.\<close>

function chunks :: "nat \<Rightarrow> 'a list \<Rightarrow> 'a list list" where
  "chunks n ws = (if n = 0 \<or> ws = [] then [] else take n ws # chunks n (drop n ws))"
  by pat_completeness auto
termination
  by (relation "measure (\<lambda>(n, ws). length ws)") auto

declare chunks.simps [simp del]

definition sentence_snippets :: "string \<Rightarrow> string list" where
  "sentence_snippets sentence0 =
     (let sentence = strip sentence0
      in if sentence = [] then []
         else if 13 * length (split_ws sentence) \<le> 10 * max_tokens then [sentence]
         else map strip
                (filter (\<lambda>chunk. strip chunk \<noteq> [])
                   (map join_space (chunks chunk_size (split_ws sentence)))))"

definition split_text_into_sentences :: "string \<Rightarrow> string list" where
  "split_text_into_sentences text =
     (if text = [] then [] else concat (map sentence_snippets (re_split text)))"

section \<open>Excerpt selection: \<^verbatim>\<open>select_top_excerpts\<close>\<close>

text \<open>A commentary as the synthesis step receives it: a dictionary with three keys.\<close>

record commentary =
  c_id :: string
  c_school :: string
  c_text :: string

record excerpt =
  e_id :: string
  e_school :: string
  e_text :: string
  original_commentary :: commentary
  similarity :: "real option"

definition make_excerpt :: "commentary \<Rightarrow> string \<Rightarrow> excerpt" where
  "make_excerpt c t =
     \<lparr>e_id = c_id c, e_school = c_school c, e_text = t, original_commentary = c,
      similarity = None\<rparr>"

text \<open>
  The inner loop over the sentences of one commentary: \<open>n\<close> is \<^verbatim>\<open>school_counts[school]\<close>,
  returned with the excerpts appended; the loop breaks when the count reaches the cap.
\<close>

fun take_sentences :: "commentary \<Rightarrow> int \<Rightarrow> nat \<Rightarrow> string list \<Rightarrow> excerpt list \<times> nat" where
  "take_sentences c max_per_school n [] = ([], n)"
| "take_sentences c max_per_school n (sentence # rest) =
     (if length (strip sentence) < 5 then take_sentences c max_per_school n rest
      else if max_per_school \<le> int (n + 1) then ([make_excerpt c sentence], n + 1)
      else (case take_sentences c max_per_school (n + 1) rest of
              (es, n') \<Rightarrow> (make_excerpt c sentence # es, n')))"

text \<open>The outer loop; \<open>school_counts\<close> is the \<^verbatim>\<open>defaultdict(int)\<close>.\<close>

fun collect_excerpts :: "int \<Rightarrow> (string \<Rightarrow> nat) \<Rightarrow> commentary list \<Rightarrow> excerpt list" where
  "collect_excerpts max_per_school school_counts [] = []"
| "collect_excerpts max_per_school school_counts (c # cs) =
     (if max_per_school \<le> int (school_counts (c_school c)) then
        collect_excerpts max_per_school school_counts cs
      else (case take_sentences c max_per_school (school_counts (c_school c))
                   (split_text_into_sentences (c_text c)) of
              (es, n') \<Rightarrow>
                es @ collect_excerpts max_per_school (school_counts(c_school c := n')) cs))"

text \<open>The fallback when no sentence was kept: the first 500 characters of each commentary.\<close>

definition fallback_excerpts :: "commentary list \<Rightarrow> excerpt list" where
  "fallback_excerpts commentaries_data =
     map (\<lambda>c. make_excerpt c (take 500 (c_text c)))
       (filter (\<lambda>c. 5 < length (strip (c_text c))) commentaries_data)"

definition candidate_excerpts :: "commentary list \<Rightarrow> int \<Rightarrow> excerpt list" where
  "candidate_excerpts commentaries_data max_per_school =
     (let excerpts = collect_excerpts max_per_school (\<lambda>_. 0) commentaries_data
      in if excerpts = [] then fallback_excerpts commentaries_data else excerpts)"

text \<open>
  The loop \<^verbatim>\<open>excerpt['similarity'] = float(similarities[i])\<close>; it stops with an IndexError,
  leaving the remaining excerpts as they were, when there are fewer similarities than
  excerpts.
\<close>

fun annotate :: "excerpt list \<Rightarrow> real list \<Rightarrow> excerpt list" where
  "annotate [] sims = []"
| "annotate (e # es) [] = e # es"
| "annotate (e # es) (s # sims) = e\<lparr>similarity := Some s\<rparr> # annotate es sims"

definition sim_of :: "excerpt \<Rightarrow> real" where
  "sim_of e = (case similarity e of Some s \<Rightarrow> s | None \<Rightarrow> 0)"

text \<open>
  The embedding model is outside the repository. An \<open>encoder\<close> stands for the three lines
  that encode the query, encode the excerpt texts and multiply the two: it returns the
  similarities, or \<open>None\<close> when one of them raises. The in-place sort is the stable
  \<^const>\<open>sort_key\<close> on the negated similarity.
\<close>

type_synonym encoder = "string \<Rightarrow> string list \<Rightarrow> real list option"

definition rank_excerpts :: "encoder \<Rightarrow> string \<Rightarrow> int \<Rightarrow> excerpt list \<Rightarrow> excerpt list" where
  "rank_excerpts model query max_excerpts excerpts0 =
     (case model query (map e_text excerpts0) of
        None \<Rightarrow> slice_to excerpts0 (min max_excerpts (int (length excerpts0)))
      | Some similarities \<Rightarrow>
          if length similarities < length excerpts0 then
            slice_to (annotate excerpts0 similarities) (min max_excerpts (int (length excerpts0)))
          else
            (let excerpts = sort_key (\<lambda>x. - sim_of x) (annotate excerpts0 similarities);
                 selected = slice_to excerpts max_excerpts
             in if selected = [] \<or> sim_of (hd selected) < 0.1 then
                  slice_to excerpts (min 8 (int (length excerpts)))
                else selected))"

definition select_top_excerpts ::
  "commentary list \<Rightarrow> string \<Rightarrow> encoder option \<Rightarrow> int \<Rightarrow> int \<Rightarrow> excerpt list"
where
  "select_top_excerpts commentaries_data query model max_excerpts max_per_school =
     (case model of
        None \<Rightarrow> []
      | Some m \<Rightarrow>
          if commentaries_data = [] then []
          else (let excerpts = candidate_excerpts commentaries_data max_per_school
                in if excerpts = [] then [] else rank_excerpts m query max_excerpts excerpts))"

section \<open>Hybrid confidence: \<^verbatim>\<open>compute_hybrid_confidence\<close>\<close>

text \<open>
  Both divisions are true divisions of integers and raise on a zero divisor. The parameter
  \<^verbatim>\<open>model_confidence\<close> is \<open>None\<close> or a number.
\<close>

definition compute_hybrid_confidence ::
  "excerpt list \<Rightarrow> int \<Rightarrow> int \<Rightarrow> int \<Rightarrow> real option \<Rightarrow> py_error + real"
where
  "compute_hybrid_confidence supporting_excerpts total_schools support_cnt N model_confidence =
     (if supporting_excerpts = [] then Inr 0
      else
        (let distinct_schools = length (remdups (map e_school supporting_excerpts))
         in if min total_schools 4 = 0 then Inl ZeroDivisionError
            else
              (let coverage = real distinct_schools / real_of_int (min total_schools 4)
               in if N = 0 then Inl ZeroDivisionError
                  else
                    (let support_strength = real_of_int support_cnt / real_of_int N;
                         computed_confidence = 0.2 * coverage + 0.1 * support_strength;
                         final_confidence =
                           (case model_confidence of
                              Some mc \<Rightarrow> 0.5 * mc + 0.5 * computed_confidence
                            | None \<Rightarrow> computed_confidence)
                     in Inr (min final_confidence 1.0)))))"



definition ex_commentaries :: "commentary list" where
  "ex_commentaries =
     [\<lparr>c_id = ''C1'', c_school = ''Advaita'', c_text = ''Act without attachment''\<rparr>,
      \<lparr>c_id = ''C2'', c_school = ''Dvaita'', c_text = ''Devotion is the way''\<rparr>]"

definition ex_encoder :: "real \<Rightarrow> real \<Rightarrow> encoder" where
  "ex_encoder a b query texts =
     Some (map (\<lambda>t. if t = ''Devotion is the way'' then b else a) texts)"


definition ex_excerpt :: "string \<Rightarrow> string \<Rightarrow> string \<Rightarrow> real option \<Rightarrow> excerpt" where
  "ex_excerpt i s t sim =
     \<lparr>e_id = i, e_school = s, e_text = t,
      original_commentary = \<lparr>c_id = i, c_school = s, c_text = t\<rparr>, similarity = sim\<rparr>"

section \<open>Synthesis: \<^verbatim>\<open>query_groq_api_aggregate\<close>\<close>

text \<open>
  The values that \<^verbatim>\<open>json.loads\<close> produces. Python's parser also accepts the literals
  \<^verbatim>\<open>NaN\<close>, \<^verbatim>\<open>Infinity\<close> and \<^verbatim>\<open>-Infinity\<close>; a dictionary is the list of its items.
\<close>

datatype json =
    JNull
  | JBool bool
  | JInt int
  | JFloat real
  | JNaN
  | JInf
  | JNegInf
  | JStr string
  | JList "json list"
  | JObj "(string \<times> json) list"

text \<open>
  The dictionary that the function returns. On the parsed path it is the service's own
  dictionary with six keys checked or overwritten, so \<open>summary\<close> and \<open>s_note\<close> hold whatever
  value the service sent, and \<open>other_keys\<close> the items under any further key.
\<close>

record synthesis =
  summary :: json
  direction :: string
  supporting_ids :: "string list"
  supporting_schools :: "string list"
  confidence_score :: real
  s_note :: json
  other_keys :: "(string \<times> json) list"

text \<open>
  What the reasoning service answers to one \<^verbatim>\<open>requests.post\<close>: the call raises, or it
  returns a status code together with the outcome of
  \<^verbatim>\<open>response.json()['choices'][0]['message']['content'].strip()\<close>, which the code evaluates
  only for status 200 and which raises when the body has another shape.
\<close>

datatype reply =
    PostRaised py_error
  | Response int "py_error + string"

text \<open>
  Everything outside the repository that the synthesis step consults: the embedding model
  that \<^verbatim>\<open>load_embedding_model\<close> returns (or \<open>None\<close>), \<^verbatim>\<open>json.loads\<close> (\<open>None\<close> for a
  JSONDecodeError), the service as a function of the API key and the prompt, and the text
  \<^verbatim>\<open>str(e)\<close> that the interpreter gives an exception.
\<close>

record env =
  load_embedding_model :: "encoder option"
  json_loads :: "string \<Rightarrow> json option"
  post :: "string \<Rightarrow> string \<Rightarrow> reply"
  exc_text :: "py_error \<Rightarrow> string"

definition insufficient :: "string \<Rightarrow> synthesis" where
  "insufficient n =
     \<lparr>summary = JStr ''INSUFFICIENT_GROUNDED_EVIDENCE'',
      direction = ''insufficient_evidence'',
      supporting_ids = [],
      supporting_schools = [],
      confidence_score = 0,
      s_note = JStr n,
      other_keys = []\<rparr>"

subsection \<open>The prompt\<close>

definition example :: string where
  \<open>example =
     ''Example:''
     @ [CHR 0x0A] @ ''User question: "What is dharma?"''
     @ [CHR 0x0A] @ ''EXCERPTS:''
     @ [CHR 0x0A] @ ''C1 | Sri Vaisnava Sampradaya | "Dharma means righteous duty according to one'' @ [CHR 0x27] @ ''s station in life..."''
     @ [CHR 0x0A] @ ''C2 | Advaita Vedanta | "Dharma is the eternal law that upholds cosmic order..."''
     @ [CHR 0x0A] @ []
     @ [CHR 0x0A] @ ''Expected JSON:''
     @ [CHR 0x0A] @ ''{''
     @ [CHR 0x0A] @ ''  "summary": "Dharma represents righteous duty and eternal law that maintains cosmic order according to one'' @ [CHR 0x27] @ ''s life circumstances.",''
     @ [CHR 0x0A] @ ''  "direction": "practical_action",''
     @ [CHR 0x0A] @ ''  "supporting_ids": ["C1", "C2"],''
     @ [CHR 0x0A] @ ''  "supporting_schools": ["Sri Vaisnava Sampradaya", "Advaita Vedanta"],''
     @ [CHR 0x0A] @ ''  "confidence_score": 0.8,''
     @ [CHR 0x0A] @ ''  "note": "Strong consensus across schools on dharma as duty and cosmic law."''
     @ [CHR 0x0A] @ ''}''\<close>

definition instruction :: string where
  \<open>instruction =
     ''Instruction: You must respond with ONLY valid JSON. No other text. Produce JSON with these exact keys: summary (2-3 sentence synthesis to answer the user question), direction (practical_action|renunciation|devotional|mixed), supporting_ids (array of excerpt IDs used), supporting_schools (array of schools), confidence_score (0.0-1.0), note (short justification). Example format:''
     @ [CHR 0x0A] @ ''{"summary": "Your synthesis here", "direction": "mixed", "supporting_ids": ["C1"], "supporting_schools": ["School Name"], "confidence_score": 0.8, "note": "Justification"}''\<close>

text \<open>The excerpt bundle, with each excerpt text cut to \<open>n\<close> characters.\<close>

definition excerpt_bundle :: "string \<Rightarrow> excerpt list \<Rightarrow> nat \<Rightarrow> string" where
  \<open>excerpt_bundle query selected_excerpts n =
     ''User question: "'' @ query @ ''"'' @ [CHR 0x0A] @ ''EXCERPTS:'' @ [CHR 0x0A]
     @ concat (map (\<lambda>excerpt.
          e_id excerpt @ '' | '' @ e_school excerpt @ '' | "'' @ take n (e_text excerpt)
          @ ''..."'' @ [CHR 0x0A]) selected_excerpts)\<close>

definition full_prompt :: "string \<Rightarrow> excerpt list \<Rightarrow> nat \<Rightarrow> string" where
  "full_prompt query selected_excerpts n =
     example @ [CHR 0x0A, CHR 0x0A] @ excerpt_bundle query selected_excerpts n @ [CHR 0x0A]
     @ instruction"

text \<open>
  The context check \<^verbatim>\<open>len(full_prompt.split()) * 1.3 > 2800\<close>: when it holds, the selected
  excerpts are cut to the first six and the prompt is rebuilt with shorter texts. The result is
  the excerpt list in force from here on, and the prompt sent.
\<close>

definition prepare_prompt :: "string \<Rightarrow> excerpt list \<Rightarrow> excerpt list \<times> string" where
  "prepare_prompt query selected_excerpts =
     (if 28000 < 13 * length (split_ws (full_prompt query selected_excerpts 200)) then
        (slice_to selected_excerpts 6, full_prompt query (slice_to selected_excerpts 6) 150)
      else (selected_excerpts, full_prompt query selected_excerpts 200))"

subsection \<open>Parsing and validation\<close>

text \<open>
  \<^verbatim>\<open>re.search(r'\{.*\}', text, re.DOTALL)\<close>: from the first opening brace to the last closing
  brace after it; the text itself when there is no such block.
\<close>

definition extract_json_from_text :: "string \<Rightarrow> string" where
  "extract_json_from_text text =
     (case dropWhile (\<lambda>c. c \<noteq> CHR ''{'') text of
        [] \<Rightarrow> text
      | brace # rest \<Rightarrow>
          (case rev (dropWhile (\<lambda>c. c \<noteq> CHR ''}'') (rev rest)) of
             [] \<Rightarrow> text
           | inner \<Rightarrow> brace # inner))"

definition allowed_directions :: "string list" where
  "allowed_directions =
     [''practical_action'', ''renunciation'', ''devotional'', ''jnana'', ''mixed'',
      ''insufficient_evidence'']"

text \<open>Lists and dictionaries are unhashable: testing them for membership in a set raises.\<close>

fun hashable :: "json \<Rightarrow> bool" where
  "hashable (JList _) = False"
| "hashable (JObj _) = False"
| "hashable _ = True"

definition validate_direction :: "(string \<times> json) list \<Rightarrow> py_error + string" where
  "validate_direction result =
     (case map_of result ''direction'' of
        None \<Rightarrow> Inr ''mixed''
      | Some v \<Rightarrow>
          if \<not> hashable v then Inl TypeError
          else (case v of
                  JStr d \<Rightarrow> Inr (if d \<in> set allowed_directions then d else ''mixed'')
                | _ \<Rightarrow> Inr ''mixed''))"

text \<open>
  \<^verbatim>\<open>[id for id in result['supporting_ids'] if id in provided_ids]\<close>: the excerpt ids are
  strings, so only a string can be a member.
\<close>

fun filter_ids :: "string list \<Rightarrow> json list \<Rightarrow> py_error + string list" where
  "filter_ids provided_ids [] = Inr []"
| "filter_ids provided_ids (x # xs) =
     (if \<not> hashable x then Inl TypeError
      else (case filter_ids provided_ids xs of
              Inl e \<Rightarrow> Inl e
            | Inr kept \<Rightarrow>
                Inr (case x of
                       JStr i \<Rightarrow> if i \<in> set provided_ids then i # kept else kept
                     | _ \<Rightarrow> kept)))"

definition validate_ids :: "string list \<Rightarrow> (string \<times> json) list \<Rightarrow> py_error + string list" where
  "validate_ids provided_ids result =
     (case map_of result ''supporting_ids'' of
        Some (JList ids) \<Rightarrow> filter_ids provided_ids ids
      | _ \<Rightarrow> Inr [])"

definition validate_schools ::
  "excerpt list \<Rightarrow> string list \<Rightarrow> (string \<times> json) list \<Rightarrow> string list"
where
  "validate_schools selected_excerpts ids result =
     (case map_of result ''supporting_schools'' of
        Some (JList _) \<Rightarrow>
          remdups (map e_school (filter (\<lambda>excerpt. e_id excerpt \<in> set ids) selected_excerpts))
      | _ \<Rightarrow> [])"

text \<open>
  \<^verbatim>\<open>max(0.0, min(1.0, float(v)))\<close> for a number (a boolean is an \<^verbatim>\<open>int\<close>), and 0.0 for
  anything else. \<^verbatim>\<open>float\<close> raises OverflowError on an integer that rounds beyond the largest
  double; \<^verbatim>\<open>min(1.0, nan)\<close> is 1.0.
\<close>

definition validate_confidence :: "(string \<times> json) list \<Rightarrow> py_error + real" where
  "validate_confidence result =
     (case map_of result ''confidence_score'' of
        Some (JBool b) \<Rightarrow> Inr (if b then 1 else 0)
      | Some (JInt i) \<Rightarrow>
          if 2 ^ 1024 - 2 ^ 970 \<le> \<bar>i\<bar> then Inl OverflowError
          else Inr (max 0 (min 1 (real_of_int i)))
      | Some (JFloat x) \<Rightarrow> Inr (max 0 (min 1 x))
      | Some JNaN \<Rightarrow> Inr 1
      | Some JInf \<Rightarrow> Inr 1
      | Some JNegInf \<Rightarrow> Inr 0
      | _ \<Rightarrow> Inr 0)"

definition validated_keys :: "string list" where
  "validated_keys =
     [''summary'', ''direction'', ''supporting_ids'', ''supporting_schools'',
      ''confidence_score'', ''note'']"

text \<open>
  Steps 6 and 7 on a parsed dictionary: the six fields are checked in the order of the code,
  then the confidence is replaced by the hybrid confidence.
\<close>

definition validate_dict ::
  "commentary list \<Rightarrow> excerpt list \<Rightarrow> (string \<times> json) list \<Rightarrow> py_error + synthesis"
where
  "validate_dict commentaries_data selected_excerpts result =
     (case validate_direction result of
        Inl e \<Rightarrow> Inl e
      | Inr d \<Rightarrow>
     (case validate_ids (map e_id selected_excerpts) result of
        Inl e \<Rightarrow> Inl e
      | Inr ids \<Rightarrow>
     (case validate_confidence result of
        Inl e \<Rightarrow> Inl e
      | Inr model_confidence \<Rightarrow>
     (let total_schools = int (length (remdups (map c_school commentaries_data)));
          supporting_excerpts = filter (\<lambda>e. e_id e \<in> set ids) selected_excerpts
      in case compute_hybrid_confidence supporting_excerpts total_schools
                (int (length supporting_excerpts)) (int (length selected_excerpts))
                (Some model_confidence) of
           Inl e \<Rightarrow> Inl e
         | Inr hybrid_confidence \<Rightarrow>
             Inr \<lparr>summary = (case map_of result ''summary'' of
                               None \<Rightarrow> JStr ''INSUFFICIENT_GROUNDED_EVIDENCE''
                             | Some v \<Rightarrow> v),
                  direction = d,
                  supporting_ids = ids,
                  supporting_schools = validate_schools selected_excerpts ids result,
                  confidence_score = hybrid_confidence,
                  s_note = (case map_of result ''note'' of None \<Rightarrow> JStr ''N/A'' | Some v \<Rightarrow> v),
                  other_keys = filter (\<lambda>kv. fst kv \<notin> set validated_keys) result\<rparr>))))"

text \<open>
  A parsed value that is not a dictionary fails the first membership test or the first item
  access with a TypeError, whatever its kind.
\<close>

definition validate_result ::
  "commentary list \<Rightarrow> excerpt list \<Rightarrow> json \<Rightarrow> py_error + synthesis"
where
  "validate_result commentaries_data selected_excerpts parsed =
     (case parsed of
        JObj result \<Rightarrow> validate_dict commentaries_data selected_excerpts result
      | _ \<Rightarrow> Inl TypeError)"

definition fallback_result :: "string \<Rightarrow> excerpt list \<Rightarrow> string \<Rightarrow> synthesis" where
  "fallback_result query selected_excerpts raw_content =
     \<lparr>summary = JStr (''Based on '' @ str_nat (length selected_excerpts)
          @ '' commentary excerpts, this verse addresses the question about '' @ lower query
          @ ''.''),
      direction = ''mixed'',
      supporting_ids = map e_id (slice_to selected_excerpts 3),
      supporting_schools = remdups (map e_school (slice_to selected_excerpts 3)),
      confidence_score = 0.6,
      s_note = JStr (''Fallback response - model output was not valid JSON. Raw: ''
          @ slice_to raw_content 100 @ ''...''),
      other_keys = []\<rparr>"

text \<open>Step 5, the three tiers: direct parse, parse of the brace block, synthesized fallback.\<close>

definition parse_response ::
  "env \<Rightarrow> commentary list \<Rightarrow> string \<Rightarrow> excerpt list \<Rightarrow> string \<Rightarrow> py_error + synthesis"
where
  "parse_response ev commentaries_data query selected_excerpts raw_content =
     (case json_loads ev raw_content of
        Some parsed \<Rightarrow> validate_result commentaries_data selected_excerpts parsed
      | None \<Rightarrow>
          (case json_loads ev (extract_json_from_text raw_content) of
             Some parsed \<Rightarrow> validate_result commentaries_data selected_excerpts parsed
           | None \<Rightarrow> Inr (fallback_result query selected_excerpts raw_content)))"

definition api_error_note :: "int \<Rightarrow> string" where
  "api_error_note status_code =
     ''API error: '' @ str_int status_code
     @ (if status_code = 401 then '' - Invalid API key''
        else if status_code = 429 then '' - Rate limit exceeded''
        else if status_code = 500 then '' - Server error''
        else [])"

text \<open>The body of the \<^verbatim>\<open>try\<close> block from the answer of the service on.\<close>

definition handle_reply ::
  "env \<Rightarrow> commentary list \<Rightarrow> string \<Rightarrow> excerpt list \<Rightarrow> reply \<Rightarrow> py_error + synthesis"
where
  "handle_reply ev commentaries_data query selected_excerpts r =
     (case r of
        PostRaised e \<Rightarrow> Inl e
      | Response status_code content \<Rightarrow>
          if status_code \<noteq> 200 then Inr (insufficient (api_error_note status_code))
          else (case content of
                  Inl e \<Rightarrow> Inl e
                | Inr raw_content \<Rightarrow>
                    parse_response ev commentaries_data query selected_excerpts
                      (strip raw_content)))"

text \<open>
  \<^verbatim>\<open>query_groq_api_aggregate\<close>. The second component of the result lists the prompts posted
  to the service, in order. The audit log written at the end cannot change the result (a
  failure to write it is swallowed) and is left out.
\<close>

definition query_groq_api_aggregate ::
  "env \<Rightarrow> commentary list \<Rightarrow> string \<Rightarrow> string option \<Rightarrow> synthesis \<times> string list"
where
  "query_groq_api_aggregate ev commentaries_data query api_key =
     (case api_key of
        None \<Rightarrow> (insufficient ''No commentaries provided or API key missing.'', [])
      | Some key \<Rightarrow>
          if key = [] \<or> commentaries_data = [] then
            (insufficient ''No commentaries provided or API key missing.'', [])
          else
            (case load_embedding_model ev of
               None \<Rightarrow>
                 (insufficient ''Failed to load embedding model for excerpt selection.'', [])
             | Some model \<Rightarrow>
                 (let selected_excerpts0 =
                        select_top_excerpts commentaries_data query (Some model) 16 6
                  in if selected_excerpts0 = [] then
                       (insufficient (''No relevant excerpts found after selection from ''
                          @ str_nat (length commentaries_data) @ '' commentaries.''), [])
                     else
                       (case prepare_prompt query selected_excerpts0 of
                          (selected_excerpts, prompt) \<Rightarrow>
                            (case handle_reply ev commentaries_data query selected_excerpts
                                    (post ev key prompt) of
                               Inl e \<Rightarrow>
                                 (insufficient (''Error during processing: '' @ exc_text ev e),
                                  [prompt])
                             | Inr result \<Rightarrow> (result, [prompt]))))))"

text \<open>The excerpts written into the prompt of a call: the selection, cut to six when the prompt was too long.\<close>

definition sent_excerpts :: "env \<Rightarrow> commentary list \<Rightarrow> string \<Rightarrow> excerpt list" where
  "sent_excerpts ev commentaries_data query =
     fst (prepare_prompt query
            (select_top_excerpts commentaries_data query (load_embedding_model ev) 16 6))"

text \<open>
  The value a response parses to, by the direct parse or else by the parse of its brace block;
  and an environment, a selection and three service answers for concrete runs.
\<close>

definition parsed_response :: "env \<Rightarrow> string \<Rightarrow> json option" where
  "parsed_response ev raw_content =
     (case json_loads ev raw_content of
        Some parsed \<Rightarrow> Some parsed
      | None \<Rightarrow> json_loads ev (extract_json_from_text raw_content))"

definition ex_env :: "string \<Rightarrow> json \<Rightarrow> env" where
  "ex_env raw parsed =
     \<lparr>load_embedding_model = Some (ex_encoder 0.3 0.5),
      json_loads = (\<lambda>s. if s = raw then Some parsed else None),
      post = (\<lambda>key prompt. Response 200 (Inr raw)),
      exc_text = (\<lambda>e. ''error'')\<rparr>"

definition ex_selected :: "excerpt list" where
  "ex_selected =
     [ex_excerpt ''C2'' ''Dvaita'' ''Devotion is the way'' (Some 0.5),
      ex_excerpt ''C1'' ''Advaita'' ''Act without attachment'' (Some 0.3)]"

definition ex_short :: "commentary list" where
  "ex_short = [\<lparr>c_id = ''C1'', c_school = ''Advaita'', c_text = ''Om''\<rparr>]"


definition ex_raw_hallucinated :: string where
  \<open>ex_raw_hallucinated = ''{"supporting_ids": ["C9"], "confidence_score": 0.9}''\<close>

definition ex_dict_hallucinated :: "(string \<times> json) list" where
  "ex_dict_hallucinated =
     [(''supporting_ids'', JList [JStr ''C9'']), (''confidence_score'', JFloat 0.9)]"

definition ex_raw_reported :: string where
  \<open>ex_raw_reported =
     ''{"supporting_ids": ["C1", "C9"], "supporting_schools": ["Dvaita", "Invented"]}''\<close>

definition ex_dict_reported :: "(string \<times> json) list" where
  "ex_dict_reported =
     [(''supporting_ids'', JList [JStr ''C1'', JStr ''C9'']),
      (''supporting_schools'', JList [JStr ''Dvaita'', JStr ''Invented''])]"

definition ex_raw_no_schools :: string where
  \<open>ex_raw_no_schools = ''{"supporting_ids": ["C1"]}''\<close>

definition ex_dict_no_schools :: "(string \<times> json) list" where
  "ex_dict_no_schools = [(''supporting_ids'', JList [JStr ''C1''])]"

section \<open>Properties of the candidate aggregator\<close>

lemma contrib_upd_None [simp]: "contrib_upd (v, s, None, p) = add_hit s p"
  by (simp add: contrib_upd_def)

lemma contrib_upd_Some [simp]: "contrib_upd (v, s, Some k, p) = add_concept_hit s p k"
  by (simp add: contrib_upd_def)

lemma foldl_concept_eq:
  "foldl (\<lambda>cs vid. upd_candidate vid (add_concept_hit s (path_concept k vid) k) cs) cands vs =
   foldl apply_contrib cands (map (\<lambda>vid. (vid, s, Some k, path_concept k vid)) vs)"
  by (induction vs arbitrary: cands) (simp_all add: apply_contrib_def)

lemma process_hit_contributions:
  assumes "process_hit idn kg cands h = Inr cands'"
  shows "cands' = foldl apply_contrib cands (contributions idn kg h)"
proof -
  obtain s idx where h: "h = (s, idx)" by (cases h)
  show ?thesis
  proof (cases "idx = - 1")
    case True
    with assms h show ?thesis by (simp add: process_hit_def contributions_def)
  next
    case False
    with assms h obtain node_id where n: "map_of idn idx = Some node_id"
      by (auto simp: process_hit_def split: option.splits)
    with assms h False obtain t k where tk: "split_colon node_id = Some (t, k)"
      by (auto simp: process_hit_def split: option.splits)
    from assms h False n tk show ?thesis
      by (simp add: process_hit_def contributions_def apply_contrib_def foldl_concept_eq
            split: option.splits if_splits)
  qed
qed

lemma process_hits_contributions:
  "process_hits idn kg cands hs = Inr cands' \<Longrightarrow>
   cands' = foldl apply_contrib cands (all_contributions idn kg hs)"
proof (induction hs arbitrary: cands)
  case Nil
  then show ?case by (simp add: all_contributions_def)
next
  case (Cons h hs)
  from Cons.prems obtain c1 where c1: "process_hit idn kg cands h = Inr c1"
    and rest: "process_hits idn kg c1 hs = Inr cands'"
    by (auto split: sum.splits)
  from process_hit_contributions[OF c1] Cons.IH[OF rest]
  show ?case by (simp add: all_contributions_def)
qed

lemma map_of_upd_candidate:
  "map_of (upd_candidate k f cands) v =
     (if v = k then Some (f (get_cand cands k)) else map_of cands v)"
  by (induction cands) (auto simp: get_cand_def)

lemma map_fst_upd_candidate:
  "map fst (upd_candidate k f cands) =
     (if k \<in> set (map fst cands) then map fst cands else map fst cands @ [k])"
  by (induction cands) (force+)

lemma keys_upd_candidate: "fst ` set (upd_candidate k f cands) = insert k (fst ` set cands)"
proof -
  have "set (map fst (upd_candidate k f cands)) = insert k (set (map fst cands))"
    unfolding map_fst_upd_candidate by auto
  then show ?thesis by simp
qed

lemma distinct_upd_candidate:
  "distinct (map fst cands) \<Longrightarrow> distinct (map fst (upd_candidate k f cands))"
proof (induction cands)
  case Nil
  then show ?case by simp
next
  case (Cons a cands)
  obtain k' x where a: "a = (k', x)" by (cases a)
  have "fst ` set (upd_candidate k f cands) = insert k (fst ` set cands)"
    by (rule keys_upd_candidate)
  with Cons a show ?case by auto
qed

lemma get_cand_upd:
  "get_cand (upd_candidate k f cands) v = (if v = k then f (get_cand cands k) else get_cand cands v)"
  by (simp add: get_cand_def map_of_upd_candidate)

lemma get_cand_foldl:
  "get_cand (foldl apply_contrib cands cs) v =
   foldl (\<lambda>a c. contrib_upd c a) (get_cand cands v) (filter (\<lambda>c. fst c = v) cs)"
  by (induction cs arbitrary: cands) (simp_all add: apply_contrib_def get_cand_upd)

lemma keys_foldl:
  "fst ` set (foldl apply_contrib cands cs) = fst ` set cands \<union> fst ` set cs"
  by (induction cs arbitrary: cands) (auto simp: apply_contrib_def keys_upd_candidate)

lemma distinct_foldl:
  "distinct (map fst cands) \<Longrightarrow> distinct (map fst (foldl apply_contrib cands cs))"
  by (induction cs arbitrary: cands) (simp_all add: apply_contrib_def distinct_upd_candidate)

lemma contrib_upd_cases:
  obtains v s p where "c = (v, s, None, p)" | v s k p where "c = (v, s, Some k, p)"
proof -
  obtain v s ko p where c: "c = (v, s, ko, p)" by (cases c)
  show ?thesis using that c by (cases ko) blast+
qed

lemma scores_contrib_upd: "scores (contrib_upd c a) = scores a @ [fst (snd c)]"
  by (rule contrib_upd_cases[of c]) (simp_all add: add_hit_def add_concept_hit_def)

lemma support_contrib_upd: "cand_support (contrib_upd c a) = cand_support a + 1"
  by (rule contrib_upd_cases[of c]) (simp_all add: add_hit_def add_concept_hit_def)

lemma paths_contrib_upd:
  "provenance_paths (contrib_upd c a) = provenance_paths a @ [snd (snd (snd c))]"
  by (rule contrib_upd_cases[of c]) (simp_all add: add_hit_def add_concept_hit_def)

lemma concepts_contrib_upd:
  "set (cand_concepts (contrib_upd c a)) =
   set (cand_concepts a) \<union> (case fst (snd (snd c)) of None \<Rightarrow> {} | Some k \<Rightarrow> {k})"
  by (rule contrib_upd_cases[of c]) (auto simp: add_hit_def add_concept_hit_def)

lemma distinct_contrib_upd:
  "distinct (cand_concepts a) \<Longrightarrow> distinct (cand_concepts (contrib_upd c a))"
  by (rule contrib_upd_cases[of c]) (simp_all add: add_hit_def add_concept_hit_def)

lemma acc_fold_scores:
  "scores (foldl (\<lambda>a c. contrib_upd c a) a cs) = scores a @ map (\<lambda>c. fst (snd c)) cs"
  by (induction cs arbitrary: a) (simp_all add: scores_contrib_upd)

lemma acc_fold_support:
  "cand_support (foldl (\<lambda>a c. contrib_upd c a) a cs) = cand_support a + length cs"
  by (induction cs arbitrary: a) (simp_all add: support_contrib_upd)

lemma acc_fold_paths:
  "provenance_paths (foldl (\<lambda>a c. contrib_upd c a) a cs) =
   provenance_paths a @ map (\<lambda>c. snd (snd (snd c))) cs"
  by (induction cs arbitrary: a) (simp_all add: paths_contrib_upd)

lemma acc_fold_concepts:
  "set (cand_concepts (foldl (\<lambda>a c. contrib_upd c a) a cs)) =
   set (cand_concepts a) \<union> {k. \<exists>v s p. (v, s, Some k, p) \<in> set cs}"
proof (induction cs arbitrary: a)
  case Nil
  then show ?case by simp
next
  case (Cons c cs)
  show ?case
  proof (rule contrib_upd_cases[of c])
    fix v s p assume "c = (v, s, None, p)"
    then show ?thesis by (simp add: Cons.IH add_hit_def)
  next
    fix v s k p assume "c = (v, s, Some k, p)"
    then show ?thesis by (auto simp: Cons.IH add_concept_hit_def)
  qed
qed

lemma acc_fold_distinct:
  "distinct (cand_concepts a) \<Longrightarrow> distinct (cand_concepts (foldl (\<lambda>a c. contrib_upd c a) a cs))"
  by (induction cs arbitrary: a) (simp_all add: distinct_contrib_upd)

lemma process_hits_candidate:
  assumes run: "process_hits idn kg [] hits = Inr cands"
      and mem: "(v, d) \<in> set cands"
  shows "scores d = contributed_sims idn kg hits v"
    and "cand_support d = length (contributed_sims idn kg hits v)"
    and "set (cand_concepts d) = contributing_terms idn kg hits v"
    and "distinct (cand_concepts d)"
    and "contributed_sims idn kg hits v \<noteq> []"
    and "provenance_paths d \<noteq> []"
proof -
  let ?cs = "all_contributions idn kg hits"
  let ?mine = "filter (\<lambda>c. fst c = v) ?cs"
  have cands: "cands = foldl apply_contrib [] ?cs"
    using process_hits_contributions[OF run] .
  have "distinct (map fst cands)"
    unfolding cands by (rule distinct_foldl) simp
  with mem have "map_of cands v = Some d" by simp
  then have "d = get_cand cands v" by (simp add: get_cand_def)
  then have d: "d = foldl (\<lambda>a c. contrib_upd c a) new_candidate ?mine"
    unfolding cands get_cand_foldl by (simp add: get_cand_def)
  have "v \<in> fst ` set cands" using mem by force
  then have "v \<in> fst ` set ?cs" unfolding cands keys_foldl by simp
  then have ne: "?mine \<noteq> []" by (auto simp: filter_empty_conv)
  show "scores d = contributed_sims idn kg hits v"
    unfolding d acc_fold_scores by (simp add: new_candidate_def contributed_sims_def)
  show "cand_support d = length (contributed_sims idn kg hits v)"
    unfolding d acc_fold_support by (simp add: new_candidate_def contributed_sims_def)
  show "set (cand_concepts d) = contributing_terms idn kg hits v"
    unfolding d acc_fold_concepts by (auto simp: new_candidate_def contributing_terms_def)
  show "distinct (cand_concepts d)"
    unfolding d by (rule acc_fold_distinct) (simp add: new_candidate_def)
  show "contributed_sims idn kg hits v \<noteq> []"
    using ne by (simp add: contributed_sims_def)
  show "provenance_paths d \<noteq> []"
    unfolding d acc_fold_paths using ne by simp
qed

lemma create_results_mem:
  "r \<in> set (create_results kg cands) \<Longrightarrow>
   \<exists>v d. (v, d) \<in> set cands \<and> map_of (verses kg) v = Some (verse r) \<and>
         score r = final_score d \<and> support_count r = cand_support d \<and>
         provenance_path r = remdups (provenance_paths d) \<and>
         related_concepts r = cand_concepts d"
proof (induction cands)
  case Nil
  then show ?case by simp
next
  case (Cons a cands)
  obtain v d where a: "a = (v, d)" by (cases a)
  show ?case
  proof (cases "map_of (verses kg) v")
    case None
    with Cons a show ?thesis by auto
  next
    case (Some vn)
    with Cons.prems a have
      "r = \<lparr>verse = vn, score = final_score d, provenance_path = remdups (provenance_paths d),
            related_concepts = cand_concepts d,
            commentaries = filter (\<lambda>c. verse_id c = v) (map snd (kg_commentaries kg)),
            support_count = cand_support d\<rparr> \<or> r \<in> set (create_results kg cands)"
      by simp
    then show ?thesis
    proof
      assume "r \<in> set (create_results kg cands)"
      from Cons.IH[OF this] show ?thesis by auto
    next
      assume "r = \<lparr>verse = vn, score = final_score d, provenance_path = remdups (provenance_paths d),
            related_concepts = cand_concepts d,
            commentaries = filter (\<lambda>c. verse_id c = v) (map snd (kg_commentaries kg)),
            support_count = cand_support d\<rparr>"
      with Some a show ?thesis by auto
    qed
  qed
qed

lemma set_slice_to: "set (slice_to xs k) \<subseteq> set xs"
  by (simp add: slice_to_def set_take_subset)

lemma perform_search_mem:
  assumes "perform_search query top_k (Some search) (Some idn) (Some kg) True = Inr rs"
      and "r \<in> set rs"
  shows "\<exists>cands v d. process_hits idn kg [] (search query (top_k * 3)) = Inr cands \<and>
           (v, d) \<in> set cands \<and> map_of (verses kg) v = Some (verse r) \<and>
           score r = final_score d \<and> support_count r = cand_support d \<and>
           provenance_path r = remdups (provenance_paths d) \<and>
           related_concepts r = cand_concepts d"
proof -
  from assms(1) obtain cands where
    run: "process_hits idn kg [] (search query (top_k * 3)) = Inr cands"
    and rs: "rs = slice_to (sort_key (\<lambda>r. - score r) (create_results kg cands)) top_k"
    by (cases "process_hits idn kg [] (search query (top_k * 3))")
       (simp_all add: perform_search_def)
  have "set rs \<subseteq> set (sort_key (\<lambda>r. - score r) (create_results kg cands))"
    unfolding rs by (rule set_slice_to)
  with assms(2) have "r \<in> set (sort_key (\<lambda>r. - score r) (create_results kg cands))"
    by (rule rev_subsetD)
  then have "r \<in> set (create_results kg cands)" by simp
  from create_results_mem[OF this] run show ?thesis
    by (intro exI[of _ cands]) simp
qed

text \<open>
  Claim C3. Every result that \<^verbatim>\<open>perform_search\<close> returns belongs to a verse key of the store
  that received at least one contribution, and its score is the arithmetic mean of the
  similarities contributed to that key (a verse hit as it is, a commentary hit times 0.9, a
  concept hit times 0.8 for every verse of its membership list), plus 0.1 for every distinct
  contributing concept term, plus the smaller of 0.05 times the number of contributions and
  0.2.
\<close>

theorem final_score_formula:
  assumes "perform_search query top_k (Some search) (Some idn) (Some kg) True = Inr rs"
      and "r \<in> set rs"
  shows "\<exists>v. map_of (verses kg) v = Some (verse r) \<and>
           contributed_sims idn kg (search query (top_k * 3)) v \<noteq> [] \<and>
           score r =
             mean (contributed_sims idn kg (search query (top_k * 3)) v)
             + 0.1 * real (card (contributing_terms idn kg (search query (top_k * 3)) v))
             + min (0.05 * real (length (contributed_sims idn kg (search query (top_k * 3)) v))) 0.2"
proof -
  let ?hits = "search query (top_k * 3)"
  from perform_search_mem[OF assms] obtain cands v d where
    run: "process_hits idn kg [] ?hits = Inr cands" and mem: "(v, d) \<in> set cands"
    and vs: "map_of (verses kg) v = Some (verse r)" and sc: "score r = final_score d"
    by blast
  note facts = process_hits_candidate[OF run mem]
  have "card (set (cand_concepts d)) = length (cand_concepts d)"
    using facts(4) by (rule distinct_card)
  then have "card (contributing_terms idn kg ?hits v) = length (cand_concepts d)"
    using facts(3) by simp
  then have "final_score d =
      mean (contributed_sims idn kg ?hits v)
      + 0.1 * real (card (contributing_terms idn kg ?hits v))
      + min (0.05 * real (length (contributed_sims idn kg ?hits v))) 0.2"
    using facts(1) facts(2) facts(5) by (simp add: final_score_def Let_def)
  with vs sc facts(5) show ?thesis by auto
qed

lemma ex_hit0: "process_hit ex_id_to_node ex_kg [] (s, 0)
   = Inr [(''2:47'', add_hit s (path_verse ''2:47'') new_candidate)]"
  by (simp add: process_hit_def ex_id_to_node_def)

lemma ex_hit1: "process_hit ex_id_to_node ex_kg [(''2:47'', d)] (s, 1)
   = Inr [(''2:47'', add_concept_hit (s * 0.8) (path_concept ''dharma'' ''2:47'') ''dharma'' d),
          (''3:35'', add_concept_hit (s * 0.8) (path_concept ''dharma'' ''3:35'') ''dharma'' new_candidate)]"
  by (simp add: process_hit_def ex_id_to_node_def ex_kg_def)

lemma ex_cands: "process_hits ex_id_to_node ex_kg [] [(s0, 0), (s1, 1)]
   = Inr [(''2:47'', add_concept_hit (s1 * 0.8) (path_concept ''dharma'' ''2:47'') ''dharma''
                      (add_hit s0 (path_verse ''2:47'') new_candidate)),
          (''3:35'', add_concept_hit (s1 * 0.8) (path_concept ''dharma'' ''3:35'') ''dharma'' new_candidate)]"
  by (simp add: ex_hit0 ex_hit1)

lemma ex_paths: "path_verse ''2:47'' \<noteq> path_concept ''dharma'' ''2:47''"
  by (simp add: path_verse_def path_concept_def)

lemma ex_results: "create_results ex_kg [(''2:47'', d0), (''3:35'', d1)]
  = [ex_result ''2:47'' (final_score d0) (remdups (provenance_paths d0)) (cand_concepts d0) (cand_support d0),
     ex_result ''3:35'' (final_score d1) (remdups (provenance_paths d1)) (cand_concepts d1) (cand_support d1)]"
  by (simp add: ex_kg_def ex_result_def)

lemma ex_run: "perform_search ''dharma'' 2 (Some (ex_search [0.9, 0.7])) (Some ex_id_to_node) (Some ex_kg) True
  = Inr [ex_result ''2:47'' 0.93 [path_verse ''2:47'', path_concept ''dharma'' ''2:47''] [''dharma''] 2,
         ex_result ''3:35'' 0.71 [path_concept ''dharma'' ''3:35''] [''dharma''] 1]"
proof -
  have "perform_search ''dharma'' 2 (Some (ex_search [0.9, 0.7])) (Some ex_id_to_node) (Some ex_kg) True
    = Inr (slice_to (sort_key (\<lambda>r. - score r) (create_results ex_kg
        [(''2:47'', add_concept_hit (0.7 * 0.8) (path_concept ''dharma'' ''2:47'') ''dharma''
                      (add_hit 0.9 (path_verse ''2:47'') new_candidate)),
          (''3:35'', add_concept_hit (0.7 * 0.8) (path_concept ''dharma'' ''3:35'') ''dharma'' new_candidate)])) 2)"
    unfolding perform_search_def ex_search_def by (simp del: process_hits.simps add: ex_cands)
  also have "\<dots> = Inr [ex_result ''2:47'' 0.93 [path_verse ''2:47'', path_concept ''dharma'' ''2:47''] [''dharma''] 2,
         ex_result ''3:35'' 0.71 [path_concept ''dharma'' ''3:35''] [''dharma''] 1]"
    unfolding ex_results
    by (simp add: final_score_def mean_def add_hit_def add_concept_hit_def new_candidate_def
          ex_paths slice_to_def ex_result_def)
  finally show ?thesis .
qed

theorem final_score_formula_witness:
  "perform_search ''dharma'' 2 (Some (ex_search [0.9, 0.7])) (Some ex_id_to_node) (Some ex_kg) True
     = Inr [ex_result ''2:47'' 0.93 [path_verse ''2:47'', path_concept ''dharma'' ''2:47''] [''dharma''] 2,
            ex_result ''3:35'' 0.71 [path_concept ''dharma'' ''3:35''] [''dharma''] 1]
   \<and> (\<exists>v. map_of (verses ex_kg) v = Some (ex_verse ''2:47'') \<and>
          contributed_sims ex_id_to_node ex_kg (ex_search [0.9, 0.7] ''dharma'' (2 * 3)) v \<noteq> [] \<and>
          (0.93 :: real) =
             mean (contributed_sims ex_id_to_node ex_kg (ex_search [0.9, 0.7] ''dharma'' (2 * 3)) v)
             + 0.1 * real (card (contributing_terms ex_id_to_node ex_kg (ex_search [0.9, 0.7] ''dharma'' (2 * 3)) v))
             + min (0.05 * real (length (contributed_sims ex_id_to_node ex_kg (ex_search [0.9, 0.7] ''dharma'' (2 * 3)) v))) 0.2)"
proof -
  let ?r = "ex_result ''2:47'' 0.93 [path_verse ''2:47'', path_concept ''dharma'' ''2:47''] [''dharma''] 2"
  have mem: "?r \<in> set [?r, ex_result ''3:35'' 0.71 [path_concept ''dharma'' ''3:35''] [''dharma''] 1]"
    by simp
  have v: "verse ?r = ex_verse ''2:47''" and sc: "score ?r = 0.93"
    by (simp_all add: ex_result_def)
  have "\<exists>v. map_of (verses ex_kg) v = Some (ex_verse ''2:47'') \<and>
          contributed_sims ex_id_to_node ex_kg (ex_search [0.9, 0.7] ''dharma'' (2 * 3)) v \<noteq> [] \<and>
          (0.93 :: real) =
             mean (contributed_sims ex_id_to_node ex_kg (ex_search [0.9, 0.7] ''dharma'' (2 * 3)) v)
             + 0.1 * real (card (contributing_terms ex_id_to_node ex_kg (ex_search [0.9, 0.7] ''dharma'' (2 * 3)) v))
             + min (0.05 * real (length (contributed_sims ex_id_to_node ex_kg (ex_search [0.9, 0.7] ''dharma'' (2 * 3)) v))) 0.2"
    using final_score_formula[OF ex_run mem] unfolding v sc .
  with ex_run show ?thesis by (rule conjI)
qed

lemma ex_results1: "create_results ex_kg [(''2:47'', d0)]
  = [ex_result ''2:47'' (final_score d0) (remdups (provenance_paths d0)) (cand_concepts d0) (cand_support d0)]"
  by (simp add: ex_kg_def ex_result_def)

lemma ex_run_neg: "perform_search ''dharma'' 2 (Some (ex_search [- 0.5])) (Some ex_id_to_node) (Some ex_kg) True
  = Inr [ex_result ''2:47'' (- 0.45) [path_verse ''2:47''] [] 1]"
proof -
  have "perform_search ''dharma'' 2 (Some (ex_search [- 0.5])) (Some ex_id_to_node) (Some ex_kg) True
    = Inr (slice_to (sort_key (\<lambda>r. - score r) (create_results ex_kg
        [(''2:47'', add_hit (- 0.5) (path_verse ''2:47'') new_candidate)])) 2)"
    unfolding perform_search_def ex_search_def by (simp add: ex_hit0)
  also have "\<dots> = Inr [ex_result ''2:47'' (- 0.45) [path_verse ''2:47''] [] 1]"
    unfolding ex_results1
    by (simp add: final_score_def mean_def add_hit_def new_candidate_def slice_to_def ex_result_def)
  finally show ?thesis .
qed

lemma contributions_bounds:
  assumes "snd h \<noteq> - 1 \<longrightarrow> 0 \<le> fst h \<and> fst h \<le> M"
      and "c \<in> set (contributions idn kg h)"
  shows "0 \<le> fst (snd c) \<and> fst (snd c) \<le> M"
proof -
  obtain s idx where h: "h = (s, idx)" by (cases h)
  show ?thesis
  proof (cases "idx = - 1")
    case True
    with assms(2) h show ?thesis by (simp add: contributions_def)
  next
    case ni: False
    with assms(1) h have s: "0 \<le> s" and sM: "s \<le> M" by simp_all
    have s9: "s * 0.9 \<le> M" using s sM by simp
    have s8: "s * 0.8 \<le> M" using s sM by simp
    show ?thesis
    proof (cases "map_of idn idx")
      case None
      with assms(2) h ni show ?thesis by (simp add: contributions_def)
    next
      case sn: (Some node_id)
      show ?thesis
      proof (cases "split_colon node_id")
        case None
        with assms(2) h ni sn show ?thesis by (simp add: contributions_def)
      next
        case (Some tk)
        obtain t k where tk: "tk = (t, k)" by (cases tk)
        have c: "c \<in> set (if t = ''verse'' then [(k, s, None, path_verse k)]
                  else if t = ''commentary'' then
                    (case map_of (kg_commentaries kg) k of
                       None \<Rightarrow> []
                     | Some c \<Rightarrow>
                         [(verse_id c, s * 0.9, None, path_commentary (cn_school c) (verse_id c))])
                  else if t = ''concept'' then
                    (case map_of (concepts kg) k of
                       None \<Rightarrow> []
                     | Some c \<Rightarrow>
                         map (\<lambda>vid. (vid, s * 0.8, Some k, path_concept k vid))
                           (mentioned_in c))
                  else [])"
          using assms(2) h ni sn Some tk by (simp add: contributions_def)
        show ?thesis
        proof (cases "t = ''verse''")
          case True
          with c s sM show ?thesis by simp
        next
          case nv: False
          show ?thesis
          proof (cases "t = ''commentary''")
            case True
            with c s s9 nv show ?thesis by (cases "map_of (kg_commentaries kg) k") auto
          next
            case nc: False
            show ?thesis
            proof (cases "t = ''concept''")
              case True
              with c s s8 nv nc show ?thesis by (cases "map_of (concepts kg) k") auto
            next
              case False
              with c nv nc show ?thesis by simp
            qed
          qed
        qed
      qed
    qed
  qed
qed

lemma contributed_sims_bounds:
  assumes "\<forall>h \<in> set hits. snd h \<noteq> - 1 \<longrightarrow> 0 \<le> fst h \<and> fst h \<le> M"
      and "x \<in> set (contributed_sims idn kg hits v)"
  shows "0 \<le> x \<and> x \<le> M"
proof -
  from assms(2) obtain c h where h: "h \<in> set hits" and c: "c \<in> set (contributions idn kg h)"
    and x: "x = fst (snd c)"
    by (auto simp: contributed_sims_def all_contributions_def)
  from assms(1) h have "snd h \<noteq> - 1 \<longrightarrow> 0 \<le> fst h \<and> fst h \<le> M" by blast
  from contributions_bounds[OF this c] x show ?thesis by simp
qed

lemma sum_list_bounds:
  "(\<And>x. x \<in> set xs \<Longrightarrow> 0 \<le> x \<and> x \<le> M) \<Longrightarrow>
   0 \<le> sum_list xs \<and> sum_list xs \<le> real (length xs) * M"
proof (induction xs)
  case Nil
  then show ?case by simp
next
  case (Cons a xs)
  have a: "0 \<le> a \<and> a \<le> M" using Cons.prems by simp
  have "0 \<le> sum_list xs \<and> sum_list xs \<le> real (length xs) * M"
    using Cons.IH Cons.prems by simp
  with a show ?case by (simp add: algebra_simps)
qed

lemma mean_bounds:
  assumes ne: "xs \<noteq> []" and b: "\<And>x. x \<in> set xs \<Longrightarrow> 0 \<le> x \<and> x \<le> M"
  shows "0 \<le> mean xs \<and> mean xs \<le> M"
proof -
  have pos: "0 < real (length xs)" using ne by simp
  from sum_list_bounds[of xs M] b
  have s: "0 \<le> sum_list xs" and u: "sum_list xs \<le> real (length xs) * M" by blast+
  have "0 \<le> sum_list xs / real (length xs)" using s by simp
  moreover have "sum_list xs / real (length xs) \<le> M"
    using u pos by (simp add: pos_divide_le_eq mult.commute)
  ultimately show ?thesis by (simp add: mean_def)
qed

lemma final_score_bounds:
  assumes ne: "scores d \<noteq> []" and b: "\<And>x. x \<in> set (scores d) \<Longrightarrow> 0 \<le> x \<and> x \<le> M"
  shows "0 \<le> final_score d \<and> final_score d \<le> M + 0.1 * real (length (cand_concepts d)) + 0.2"
proof -
  from mean_bounds[OF ne b] have m: "0 \<le> mean (scores d)" "mean (scores d) \<le> M" by simp_all
  have f: "final_score d = mean (scores d) + real (length (cand_concepts d)) * 0.1
            + min (real (cand_support d) * 0.05) 0.2"
    using ne by (simp add: final_score_def Let_def)
  have lo: "0 \<le> min (real (cand_support d) * 0.05) 0.2" by simp
  have hi: "min (real (cand_support d) * 0.05) 0.2 \<le> 0.2" by simp
  have c: "0 \<le> real (length (cand_concepts d)) * 0.1" by simp
  from m lo hi c show ?thesis unfolding f by (simp add: mult.commute)
qed

text \<open>
  Claim C8, as amended. The index pads a short answer with entries of id -1, which the
  aggregator skips. When every other raw hit has a similarity between 0 and a bound \<open>M\<close>,
  every result has a score that is non-negative and finite: it is at most \<open>M\<close> plus 0.1 for
  each of its concept terms plus 0.2. (Scores are real numbers here, so finiteness is stated
  as this bound.)
\<close>

theorem score_nonneg_and_finite:
  assumes "perform_search query top_k (Some search) (Some idn) (Some kg) True = Inr rs"
      and "r \<in> set rs"
      and "\<forall>h \<in> set (search query (top_k * 3)). snd h \<noteq> - 1 \<longrightarrow> 0 \<le> fst h \<and> fst h \<le> M"
  shows "0 \<le> score r \<and> score r \<le> M + 0.1 * real (length (related_concepts r)) + 0.2"
proof -
  from perform_search_mem[OF assms(1) assms(2)] obtain cands v d where
    run: "process_hits idn kg [] (search query (top_k * 3)) = Inr cands" and mem: "(v, d) \<in> set cands"
    and sc: "score r = final_score d" and rc: "related_concepts r = cand_concepts d"
    by blast
  note facts = process_hits_candidate[OF run mem]
  have ne: "scores d \<noteq> []" using facts(1) facts(5) by simp
  have "\<And>x. x \<in> set (scores d) \<Longrightarrow> 0 \<le> x \<and> x \<le> M"
    unfolding facts(1) using assms(3) by (rule contributed_sims_bounds)
  with ne have "0 \<le> final_score d \<and> final_score d \<le> M + 0.1 * real (length (cand_concepts d)) + 0.2"
    by (rule final_score_bounds)
  then show ?thesis unfolding sc rc .
qed

lemma ex_cands_padded: "process_hits ex_id_to_node ex_kg [] [(s0, 0), (s1, 1), (s2, - 1)]
   = Inr [(''2:47'', add_concept_hit (s1 * 0.8) (path_concept ''dharma'' ''2:47'') ''dharma''
                      (add_hit s0 (path_verse ''2:47'') new_candidate)),
          (''3:35'', add_concept_hit (s1 * 0.8) (path_concept ''dharma'' ''3:35'') ''dharma'' new_candidate)]"
proof -
  have pad: "\<And>cands. process_hit ex_id_to_node ex_kg cands (s2, - 1) = Inr cands"
    by (simp add: process_hit_def)
  show ?thesis by (simp add: ex_hit0 ex_hit1 pad)
qed

lemma ex_run_padded:
  "perform_search ''dharma'' 2 (Some ex_search_padded) (Some ex_id_to_node) (Some ex_kg) True
  = Inr [ex_result ''2:47'' 0.93 [path_verse ''2:47'', path_concept ''dharma'' ''2:47''] [''dharma''] 2,
         ex_result ''3:35'' 0.71 [path_concept ''dharma'' ''3:35''] [''dharma''] 1]"
proof -
  have "perform_search ''dharma'' 2 (Some ex_search_padded) (Some ex_id_to_node) (Some ex_kg) True
    = Inr (slice_to (sort_key (\<lambda>r. - score r) (create_results ex_kg
        [(''2:47'', add_concept_hit (0.7 * 0.8) (path_concept ''dharma'' ''2:47'') ''dharma''
                      (add_hit 0.9 (path_verse ''2:47'') new_candidate)),
          (''3:35'', add_concept_hit (0.7 * 0.8) (path_concept ''dharma'' ''3:35'') ''dharma'' new_candidate)])) 2)"
    unfolding perform_search_def ex_search_padded_def
    by (simp del: process_hits.simps add: ex_cands_padded)
  also have "\<dots> = Inr [ex_result ''2:47'' 0.93 [path_verse ''2:47'', path_concept ''dharma'' ''2:47''] [''dharma''] 2,
         ex_result ''3:35'' 0.71 [path_concept ''dharma'' ''3:35''] [''dharma''] 1]"
    unfolding ex_results
    by (simp add: final_score_def mean_def add_hit_def add_concept_hit_def new_candidate_def
          ex_paths slice_to_def ex_result_def)
  finally show ?thesis .
qed

theorem score_nonneg_and_finite_witness:
  "perform_search ''dharma'' 2 (Some ex_search_padded) (Some ex_id_to_node) (Some ex_kg) True
     = Inr [ex_result ''2:47'' 0.93 [path_verse ''2:47'', path_concept ''dharma'' ''2:47''] [''dharma''] 2,
            ex_result ''3:35'' 0.71 [path_concept ''dharma'' ''3:35''] [''dharma''] 1]
   \<and> ex_search_padded ''dharma'' (2 * 3)
     = [(0.9, 0), (0.7, 1), (- 340282346638528859811704183484516925440, - 1)]
   \<and> (0::real) \<le> 0.9 \<and> (0.9::real) \<le> 0.9 \<and> (0::real) \<le> 0.7 \<and> (0.7::real) \<le> 0.9
   \<and> 0 \<le> score (ex_result ''2:47'' 0.93 [path_verse ''2:47'', path_concept ''dharma'' ''2:47''] [''dharma''] 2)
   \<and> score (ex_result ''2:47'' 0.93 [path_verse ''2:47'', path_concept ''dharma'' ''2:47''] [''dharma''] 2)
       \<le> 0.9 + 0.1 * real (length (related_concepts
            (ex_result ''2:47'' 0.93 [path_verse ''2:47'', path_concept ''dharma'' ''2:47''] [''dharma''] 2)))
         + 0.2"
proof -
  let ?r = "ex_result ''2:47'' 0.93 [path_verse ''2:47'', path_concept ''dharma'' ''2:47''] [''dharma''] 2"
  have mem: "?r \<in> set [?r, ex_result ''3:35'' 0.71 [path_concept ''dharma'' ''3:35''] [''dharma''] 1]"
    by simp
  have hits: "ex_search_padded ''dharma'' (2 * 3)
     = [(0.9, 0), (0.7, 1), (- 340282346638528859811704183484516925440, - 1)]"
    by (simp add: ex_search_padded_def)
  have pre: "\<forall>h \<in> set (ex_search_padded ''dharma'' (2 * 3)).
      snd h \<noteq> - 1 \<longrightarrow> 0 \<le> fst h \<and> fst h \<le> 0.9"
    unfolding hits by simp
  have nums: "(0::real) \<le> 0.9 \<and> (0.9::real) \<le> 0.9 \<and> (0::real) \<le> 0.7 \<and> (0.7::real) \<le> 0.9"
    by simp
  from score_nonneg_and_finite[OF ex_run_padded mem pre] ex_run_padded hits nums
  show ?thesis by blast
qed

text \<open>
  Claim C8 as stated fails: the index may return a negative similarity, and the aggregator
  neither clamps nor drops it. A single verse hit of similarity -0.5 yields the score
  -0.5 + 0 + 0.05 = -0.45.
\<close>

theorem score_nonneg_counterexample:
  "perform_search ''dharma'' 2 (Some (ex_search [- 0.5])) (Some ex_id_to_node) (Some ex_kg) True
     = Inr [ex_result ''2:47'' (- 0.45) [path_verse ''2:47''] [] 1]
   \<and> score (ex_result ''2:47'' (- 0.45) [path_verse ''2:47''] [] 1) < 0"
  using ex_run_neg by (simp add: ex_result_def)

text \<open>
  Claim C9. Every result comes from an accumulator that holds at least one contributed
  similarity and at least one provenance path, and whose support count, at least 1, is the
  number of its similarities; the result carries that support count, and its provenance list,
  the accumulated paths without duplicates, is not empty.
\<close>

theorem result_support_invariant:
  assumes "perform_search query top_k (Some search) (Some idn) (Some kg) True = Inr rs"
      and "r \<in> set rs"
  shows "1 \<le> support_count r \<and> provenance_path r \<noteq> [] \<and>
         (\<exists>cands v d. process_hits idn kg [] (search query (top_k * 3)) = Inr cands \<and>
            (v, d) \<in> set cands \<and> map_of (verses kg) v = Some (verse r) \<and>
            scores d \<noteq> [] \<and> provenance_paths d \<noteq> [] \<and> 1 \<le> cand_support d \<and>
            support_count r = cand_support d \<and> cand_support d = length (scores d) \<and>
            provenance_path r = remdups (provenance_paths d))"
proof -
  from perform_search_mem[OF assms] obtain cands v d where
    run: "process_hits idn kg [] (search query (top_k * 3)) = Inr cands" and mem: "(v, d) \<in> set cands"
    and vs: "map_of (verses kg) v = Some (verse r)"
    and sup: "support_count r = cand_support d"
    and pp: "provenance_path r = remdups (provenance_paths d)"
    by blast
  note facts = process_hits_candidate[OF run mem]
  have s: "scores d \<noteq> []" using facts(1) facts(5) by simp
  have n: "cand_support d = length (scores d)" using facts(1) facts(2) by simp
  have one: "1 \<le> cand_support d" using s n by (cases "scores d") simp_all
  have p: "provenance_paths d \<noteq> []" by (rule facts(6))
  then have "remdups (provenance_paths d) \<noteq> []" by simp
  then have B: "provenance_path r \<noteq> []" using pp by simp
  have A: "1 \<le> support_count r" using sup one by simp
  have C: "\<exists>cands v d. process_hits idn kg [] (search query (top_k * 3)) = Inr cands \<and>
            (v, d) \<in> set cands \<and> map_of (verses kg) v = Some (verse r) \<and>
            scores d \<noteq> [] \<and> provenance_paths d \<noteq> [] \<and> 1 \<le> cand_support d \<and>
            support_count r = cand_support d \<and> cand_support d = length (scores d) \<and>
            provenance_path r = remdups (provenance_paths d)"
    using run mem vs s p one sup n pp
    by (intro exI[of _ cands] exI[of _ v] exI[of _ d] conjI)
  from A B C show ?thesis by (intro conjI)
qed

theorem result_support_invariant_witness:
  "perform_search ''dharma'' 2 (Some (ex_search [0.9, 0.7])) (Some ex_id_to_node) (Some ex_kg) True
     = Inr [ex_result ''2:47'' 0.93 [path_verse ''2:47'', path_concept ''dharma'' ''2:47''] [''dharma''] 2,
            ex_result ''3:35'' 0.71 [path_concept ''dharma'' ''3:35''] [''dharma''] 1]
   \<and> 1 \<le> support_count (ex_result ''2:47'' 0.93 [path_verse ''2:47'', path_concept ''dharma'' ''2:47''] [''dharma''] 2)
   \<and> provenance_path (ex_result ''2:47'' 0.93 [path_verse ''2:47'', path_concept ''dharma'' ''2:47''] [''dharma''] 2) \<noteq> []"
proof -
  have mem: "ex_result ''2:47'' 0.93 [path_verse ''2:47'', path_concept ''dharma'' ''2:47''] [''dharma''] 2
      \<in> set [ex_result ''2:47'' 0.93 [path_verse ''2:47'', path_concept ''dharma'' ''2:47''] [''dharma''] 2,
            ex_result ''3:35'' 0.71 [path_concept ''dharma'' ''3:35''] [''dharma''] 1]"
    by simp
  from result_support_invariant[OF ex_run mem] ex_run show ?thesis by blast
qed

section \<open>Properties of excerpt selection\<close>


lemma slice_to_min_length:
  "0 \<le> k \<Longrightarrow> slice_to xs (min k (int (length xs))) = take (nat k) xs"
  by (simp add: slice_to_def min_def nat_le_iff)





lemma length_annotate: "length (annotate es sims) = length es"
  by (induction es sims rule: annotate.induct) simp_all



lemma sim_of_annotate:
  "length es \<le> length sims \<Longrightarrow> map sim_of (annotate es sims) = take (length es) sims"
  by (induction es sims rule: annotate.induct) (simp_all add: sim_of_def)







lemma ex_sentences1: "split_text_into_sentences ''Act without attachment'' = [''Act without attachment'']"
  by (simp add: split_text_into_sentences_def re_split_def sentence_snippets_def strip_def
        is_terminal_def is_space_def split_ws_def max_tokens_def)

lemma ex_sentences2: "split_text_into_sentences ''Devotion is the way'' = [''Devotion is the way'']"
  by (simp add: split_text_into_sentences_def re_split_def sentence_snippets_def strip_def
        is_terminal_def is_space_def split_ws_def max_tokens_def)

lemma ex_collect: "collect_excerpts 6 (\<lambda>_. 0) ex_commentaries =
   [ex_excerpt ''C1'' ''Advaita'' ''Act without attachment'' None,
    ex_excerpt ''C2'' ''Dvaita'' ''Devotion is the way'' None]"
  by (simp add: ex_commentaries_def ex_sentences1 ex_sentences2 strip_def is_space_def
        make_excerpt_def ex_excerpt_def)

lemma ex_candidates: "candidate_excerpts ex_commentaries 6 =
   [ex_excerpt ''C1'' ''Advaita'' ''Act without attachment'' None,
    ex_excerpt ''C2'' ''Dvaita'' ''Devotion is the way'' None]"
  by (simp add: candidate_excerpts_def ex_collect)

lemma ex_sims: "ex_encoder a b q
    (map e_text [ex_excerpt ''C1'' ''Advaita'' ''Act without attachment'' None,
                 ex_excerpt ''C2'' ''Dvaita'' ''Devotion is the way'' None]) = Some [a, b]"
  by (simp add: ex_encoder_def ex_excerpt_def)

lemma rank_excerpts_low:
  assumes enc: "m q (map e_text es) = Some sims"
      and len: "length es \<le> length sims"
      and low: "\<forall>s \<in> set (take (length es) sims). s < 0.1"
  shows "rank_excerpts m q k es =
         take (min 8 (length es)) (sort_key (\<lambda>x. - sim_of x) (annotate es sims))"
proof -
  let ?sorted = "sort_key (\<lambda>x. - sim_of x) (annotate es sims)"
  let ?selected = "slice_to ?sorted k"
  have all_low: "\<And>e. e \<in> set ?sorted \<Longrightarrow> sim_of e < 0.1"
  proof -
    fix e assume "e \<in> set ?sorted"
    then have "e \<in> set (annotate es sims)" by simp
    then have "sim_of e \<in> set (map sim_of (annotate es sims))" by simp
    then have "sim_of e \<in> set (take (length es) sims)"
      using sim_of_annotate[OF len] by simp
    with low show "sim_of e < 0.1" by blast
  qed
  have cond: "?selected = [] \<or> sim_of (hd ?selected) < 0.1"
  proof (cases "?selected = []")
    case True
    then show ?thesis by simp
  next
    case False
    then have "hd ?selected \<in> set ?selected" by (rule hd_in_set)
    moreover have "set ?selected \<subseteq> set ?sorted" by (rule set_slice_to)
    ultimately have "hd ?selected \<in> set ?sorted" by blast
    then show ?thesis using all_low by blast
  qed
  have n: "length ?sorted = length es" by (simp add: length_annotate)
  have "slice_to ?sorted (min 8 (int (length ?sorted))) = take (nat 8) ?sorted"
    by (rule slice_to_min_length) simp
  also have "\<dots> = take (min 8 (length es)) ?sorted"
    using n by (simp add: min_def)
  finally have res: "slice_to ?sorted (min 8 (int (length ?sorted))) = take (min 8 (length es)) ?sorted" .
  have nl: "\<not> length sims < length es" using len by simp
  show ?thesis
    unfolding rank_excerpts_def enc Let_def option.case if_not_P[OF nl] if_P[OF cond] res ..
qed

lemma ex_select_low:
  "select_top_excerpts ex_commentaries q (Some (ex_encoder 0.01 0.05)) k 6 =
     [ex_excerpt ''C2'' ''Dvaita'' ''Devotion is the way'' (Some 0.05),
      ex_excerpt ''C1'' ''Advaita'' ''Act without attachment'' (Some 0.01)]"
proof -
  let ?es = "[ex_excerpt ''C1'' ''Advaita'' ''Act without attachment'' None,
              ex_excerpt ''C2'' ''Dvaita'' ''Devotion is the way'' None]"
  have ne: "ex_commentaries \<noteq> []" by (simp add: ex_commentaries_def)
  have sorted: "sort_key (\<lambda>x. - sim_of x) (annotate ?es [0.01, 0.05])
     = [ex_excerpt ''C2'' ''Dvaita'' ''Devotion is the way'' (Some 0.05),
        ex_excerpt ''C1'' ''Advaita'' ''Act without attachment'' (Some 0.01)]"
    by (simp add: ex_excerpt_def sim_of_def)
  have "rank_excerpts (ex_encoder 0.01 0.05) q k ?es =
      take (min 8 (length ?es)) (sort_key (\<lambda>x. - sim_of x) (annotate ?es [0.01, 0.05]))"
    by (rule rank_excerpts_low[where sims = "[0.01, 0.05]"], rule ex_sims) simp_all
  then have "rank_excerpts (ex_encoder 0.01 0.05) q k ?es =
      [ex_excerpt ''C2'' ''Dvaita'' ''Devotion is the way'' (Some 0.05),
       ex_excerpt ''C1'' ''Advaita'' ''Act without attachment'' (Some 0.01)]"
    unfolding sorted by simp
  then show ?thesis
    unfolding select_top_excerpts_def ex_candidates Let_def using ne by simp
qed

lemma ex_select_ranked:
  "select_top_excerpts ex_commentaries q (Some (ex_encoder 0.3 0.5)) 16 6 =
     [ex_excerpt ''C2'' ''Dvaita'' ''Devotion is the way'' (Some 0.5),
      ex_excerpt ''C1'' ''Advaita'' ''Act without attachment'' (Some 0.3)]"
proof -
  let ?es = "[ex_excerpt ''C1'' ''Advaita'' ''Act without attachment'' None,
              ex_excerpt ''C2'' ''Dvaita'' ''Devotion is the way'' None]"
  have ne: "ex_commentaries \<noteq> []" by (simp add: ex_commentaries_def)
  have sorted: "sort_key (\<lambda>x. - sim_of x) (annotate ?es [0.3, 0.5])
     = [ex_excerpt ''C2'' ''Dvaita'' ''Devotion is the way'' (Some 0.5),
        ex_excerpt ''C1'' ''Advaita'' ''Act without attachment'' (Some 0.3)]"
    by (simp add: ex_excerpt_def sim_of_def)
  have "rank_excerpts (ex_encoder 0.3 0.5) q 16 ?es =
      [ex_excerpt ''C2'' ''Dvaita'' ''Devotion is the way'' (Some 0.5),
       ex_excerpt ''C1'' ''Advaita'' ''Act without attachment'' (Some 0.3)]"
    unfolding rank_excerpts_def ex_sims Let_def option.case sorted
    by (simp add: slice_to_def sim_of_def ex_excerpt_def)
  then show ?thesis
    unfolding select_top_excerpts_def ex_candidates Let_def using ne by simp
qed




text \<open>
  Claim C7, as amended. When the encoder returns a similarity for every candidate excerpt
  and all of them are below 0.1, the result is the first \<open>min(8, n)\<close> excerpts of the
  candidates ranked by descending similarity (equal similarities in their original order),
  whatever \<open>max_excerpts\<close> is.
\<close>

theorem low_similarity_returns_ranked_prefix:
  assumes "commentaries_data \<noteq> []"
      and "candidate_excerpts commentaries_data max_per_school = excerpts"
      and "excerpts \<noteq> []"
      and "model query (map e_text excerpts) = Some similarities"
      and "length excerpts \<le> length similarities"
      and "\<forall>s \<in> set (take (length excerpts) similarities). s < 0.1"
  shows "select_top_excerpts commentaries_data query (Some model) max_excerpts max_per_school =
         take (min 8 (length excerpts))
           (sort_key (\<lambda>x. - sim_of x) (annotate excerpts similarities))"
proof -
  have "select_top_excerpts commentaries_data query (Some model) max_excerpts max_per_school =
        rank_excerpts model query max_excerpts excerpts"
    using assms(1) assms(2) assms(3) by (simp add: select_top_excerpts_def)
  also have "\<dots> = take (min 8 (length excerpts))
           (sort_key (\<lambda>x. - sim_of x) (annotate excerpts similarities))"
    using assms(4) assms(5) assms(6) by (rule rank_excerpts_low)
  finally show ?thesis .
qed

theorem low_similarity_returns_ranked_prefix_witness:
  "ex_commentaries \<noteq> []
   \<and> candidate_excerpts ex_commentaries 6 =
        [ex_excerpt ''C1'' ''Advaita'' ''Act without attachment'' None,
         ex_excerpt ''C2'' ''Dvaita'' ''Devotion is the way'' None]
   \<and> ex_encoder 0.01 0.05 ''duty''
        (map e_text [ex_excerpt ''C1'' ''Advaita'' ''Act without attachment'' None,
                     ex_excerpt ''C2'' ''Dvaita'' ''Devotion is the way'' None]) = Some [0.01, 0.05]
   \<and> list_all (\<lambda>s. s < 0.1) (take 2 [0.01, 0.05 :: real])
   \<and> select_top_excerpts ex_commentaries ''duty'' (Some (ex_encoder 0.01 0.05)) 16 6 =
        take (min 8 (length [ex_excerpt ''C1'' ''Advaita'' ''Act without attachment'' None,
                             ex_excerpt ''C2'' ''Dvaita'' ''Devotion is the way'' None]))
          (sort_key (\<lambda>x. - sim_of x)
             (annotate [ex_excerpt ''C1'' ''Advaita'' ''Act without attachment'' None,
                        ex_excerpt ''C2'' ''Dvaita'' ''Devotion is the way'' None] [0.01, 0.05]))"
proof -
  let ?es = "[ex_excerpt ''C1'' ''Advaita'' ''Act without attachment'' None,
              ex_excerpt ''C2'' ''Dvaita'' ''Devotion is the way'' None]"
  have h1: "ex_commentaries \<noteq> []" by (simp add: ex_commentaries_def)
  have h3: "?es \<noteq> []" by simp
  have h5: "length ?es \<le> length [0.01, 0.05 :: real]" by simp
  have h6: "\<forall>s \<in> set (take (length ?es) [0.01, 0.05 :: real]). s < 0.1" by simp
  have h6': "list_all (\<lambda>s. s < 0.1) (take 2 [0.01, 0.05 :: real])" by simp
  have h4: "ex_encoder 0.01 0.05 ''duty'' (map e_text ?es) = Some [0.01, 0.05]"
    by (rule ex_sims)
  from low_similarity_returns_ranked_prefix[where commentaries_data = ex_commentaries
      and max_per_school = 6 and excerpts = ?es and model = "ex_encoder 0.01 0.05"
      and query = "''duty''" and similarities = "[0.01, 0.05]" and max_excerpts = 16,
      OF h1 ex_candidates h3 h4 h5 h6]
    h1 ex_candidates h4 h6'
  show ?thesis by (intro conjI)
qed

text \<open>
  Claim C7 as stated fails: the list is sorted in place before the low-similarity test, so
  the excerpts returned are in ranked order, not in their original order. With similarities
  0.01 and 0.05 the second candidate comes first.
\<close>

theorem low_similarity_order_counterexample:
  "ex_encoder 0.01 0.05 ''duty'' (map e_text (candidate_excerpts ex_commentaries 6)) = Some [0.01, 0.05]
   \<and> map e_text (take (min 8 2) (candidate_excerpts ex_commentaries 6)) =
        [''Act without attachment'', ''Devotion is the way'']
   \<and> map e_text (select_top_excerpts ex_commentaries ''duty'' (Some (ex_encoder 0.01 0.05)) 16 6) =
        [''Devotion is the way'', ''Act without attachment'']"
  using ex_select_low[of "''duty''" 16] ex_sims[of "0.01" "0.05" "''duty''"]
  by (simp add: ex_candidates ex_excerpt_def)

section \<open>Properties of the synthesis step\<close>

lemma filter_ids_subset: "filter_ids p xs = Inr ids \<Longrightarrow> set ids \<subseteq> set p"
proof (induction xs arbitrary: ids)
  case Nil
  then show ?case by simp
next
  case (Cons x xs)
  from Cons.prems obtain kept where k: "filter_ids p xs = Inr kept"
    and ids: "ids = (case x of JStr i \<Rightarrow> if i \<in> set p then i # kept else kept | _ \<Rightarrow> kept)"
    by (auto split: if_splits sum.splits)
  from Cons.IH[OF k] have "set kept \<subseteq> set p" .
  with ids show ?case by (cases x) auto
qed

lemma validate_ids_subset: "validate_ids p d = Inr ids \<Longrightarrow> set ids \<subseteq> set p"
proof -
  assume a: "validate_ids p d = Inr ids"
  show ?thesis
  proof (cases "map_of d ''supporting_ids''")
    case None
    with a show ?thesis by (simp add: validate_ids_def)
  next
    case (Some v)
    show ?thesis
    proof (cases v)
      case (JList xs)
      with a Some have "filter_ids p xs = Inr ids" by (simp add: validate_ids_def)
      then show ?thesis by (rule filter_ids_subset)
    qed (use a Some in \<open>simp_all add: validate_ids_def\<close>)
  qed
qed

lemma validate_dict_fields:
  assumes "validate_dict cs sel d = Inr r"
  shows "validate_ids (map e_id sel) d = Inr (supporting_ids r)"
    and "supporting_schools r = validate_schools sel (supporting_ids r) d"
    and "\<exists>mc. validate_confidence d = Inr mc \<and>
           compute_hybrid_confidence (filter (\<lambda>e. e_id e \<in> set (supporting_ids r)) sel)
             (int (length (remdups (map c_school cs))))
             (int (length (filter (\<lambda>e. e_id e \<in> set (supporting_ids r)) sel)))
             (int (length sel)) (Some mc) = Inr (confidence_score r)"
proof -
  from assms obtain dir where 1: "validate_direction d = Inr dir"
    by (cases "validate_direction d") (simp_all add: validate_dict_def)
  from assms 1 obtain ids where 2: "validate_ids (map e_id sel) d = Inr ids"
    by (cases "validate_ids (map e_id sel) d") (simp_all add: validate_dict_def)
  from assms 1 2 obtain mc where 3: "validate_confidence d = Inr mc"
    by (cases "validate_confidence d") (simp_all add: validate_dict_def)
  from assms 1 2 3 obtain h where 4:
    "compute_hybrid_confidence (filter (\<lambda>e. e_id e \<in> set ids) sel)
       (int (length (remdups (map c_school cs))))
       (int (length (filter (\<lambda>e. e_id e \<in> set ids) sel))) (int (length sel)) (Some mc) = Inr h"
    by (cases "compute_hybrid_confidence (filter (\<lambda>e. e_id e \<in> set ids) sel)
       (int (length (remdups (map c_school cs))))
       (int (length (filter (\<lambda>e. e_id e \<in> set ids) sel))) (int (length sel)) (Some mc)")
       (simp_all add: validate_dict_def Let_def)
  from assms 1 2 3 4 have r: "supporting_ids r = ids"
    "supporting_schools r = validate_schools sel ids d" "confidence_score r = h"
    by (auto simp: validate_dict_def Let_def)
  from 2 r show "validate_ids (map e_id sel) d = Inr (supporting_ids r)" by simp
  from r show "supporting_schools r = validate_schools sel (supporting_ids r) d" by simp
  from 3 4 r show "\<exists>mc. validate_confidence d = Inr mc \<and>
           compute_hybrid_confidence (filter (\<lambda>e. e_id e \<in> set (supporting_ids r)) sel)
             (int (length (remdups (map c_school cs))))
             (int (length (filter (\<lambda>e. e_id e \<in> set (supporting_ids r)) sel)))
             (int (length sel)) (Some mc) = Inr (confidence_score r)" by auto
qed

lemma validate_result_dict:
  "validate_result cs sel parsed = Inr r \<Longrightarrow> \<exists>d. parsed = JObj d \<and> validate_dict cs sel d = Inr r"
  by (cases parsed) (simp_all add: validate_result_def)

lemma set_slice_to_subset: "set (slice_to xs k) \<subseteq> set xs"
  by (simp add: slice_to_def set_take_subset)

text \<open>The shape of every result: the sentinel, the fallback, or a validated dictionary.\<close>

lemma parse_response_cases:
  assumes "parse_response ev cs q sel raw = Inr r"
  obtains (fallback) "r = fallback_result q sel raw"
        | (parsed) d where "validate_dict cs sel d = Inr r"
proof (cases "json_loads ev raw")
  case (Some p)
  with assms have "validate_result cs sel p = Inr r" by (simp add: parse_response_def)
  from validate_result_dict[OF this] obtain d where "validate_dict cs sel d = Inr r" by blast
  then show ?thesis by (rule parsed)
next
  case None
  show ?thesis
  proof (cases "json_loads ev (extract_json_from_text raw)")
    case (Some p)
    with assms None have "validate_result cs sel p = Inr r" by (simp add: parse_response_def)
    from validate_result_dict[OF this] obtain d where "validate_dict cs sel d = Inr r" by blast
    then show ?thesis by (rule parsed)
  next
    case n2: None
    with assms None have "r = fallback_result q sel raw" by (simp add: parse_response_def)
    then show ?thesis by (rule fallback)
  qed
qed

lemma handle_reply_cases:
  assumes "handle_reply ev cs q sel rep = Inr r"
  obtains (sentinel) n where "r = insufficient n"
        | (fallback) raw where "r = fallback_result q sel raw"
        | (parsed) d where "validate_dict cs sel d = Inr r"
proof (cases rep)
  case (PostRaised e)
  with assms show ?thesis by (simp add: handle_reply_def)
next
  case (Response status content)
  show ?thesis
  proof (cases "status = 200")
    case False
    with assms Response have "r = insufficient (api_error_note status)"
      by (simp add: handle_reply_def)
    then show ?thesis by (rule sentinel)
  next
    case True
    show ?thesis
    proof (cases content)
      case (Inl e)
      with assms Response True show ?thesis by (simp add: handle_reply_def)
    next
      case (Inr raw)
      with assms Response True have pr: "parse_response ev cs q sel (strip raw) = Inr r"
        by (simp add: handle_reply_def)
      show ?thesis
      proof (rule parse_response_cases[OF pr])
        assume "r = fallback_result q sel (strip raw)"
        then show ?thesis by (rule fallback)
      next
        fix d assume "validate_dict cs sel d = Inr r"
        then show ?thesis by (rule parsed)
      qed
    qed
  qed
qed

lemma prepare_prompt_nonempty: "sel0 \<noteq> [] \<Longrightarrow> fst (prepare_prompt q sel0) \<noteq> []"
  by (cases sel0) (simp_all add: prepare_prompt_def slice_to_def)

lemma q_none:
  "query_groq_api_aggregate ev cs q None =
     (insufficient ''No commentaries provided or API key missing.'', [])"
  by (simp add: query_groq_api_aggregate_def)

lemma q_empty:
  "k = [] \<or> cs = [] \<Longrightarrow> query_groq_api_aggregate ev cs q (Some k) =
     (insufficient ''No commentaries provided or API key missing.'', [])"
  unfolding query_groq_api_aggregate_def by simp

lemma q_nomodel:
  "k \<noteq> [] \<Longrightarrow> cs \<noteq> [] \<Longrightarrow> load_embedding_model ev = None \<Longrightarrow>
   query_groq_api_aggregate ev cs q (Some k) =
     (insufficient ''Failed to load embedding model for excerpt selection.'', [])"
  unfolding query_groq_api_aggregate_def by simp

lemma q_nosel:
  "k \<noteq> [] \<Longrightarrow> cs \<noteq> [] \<Longrightarrow> load_embedding_model ev = Some m \<Longrightarrow>
   select_top_excerpts cs q (Some m) 16 6 = [] \<Longrightarrow>
   query_groq_api_aggregate ev cs q (Some k) =
     (insufficient (''No relevant excerpts found after selection from ''
                          @ str_nat (length cs) @ '' commentaries.''), [])"
  unfolding query_groq_api_aggregate_def Let_def by simp

lemma q_main:
  "k \<noteq> [] \<Longrightarrow> cs \<noteq> [] \<Longrightarrow> load_embedding_model ev = Some m \<Longrightarrow>
   select_top_excerpts cs q (Some m) 16 6 \<noteq> [] \<Longrightarrow>
   prepare_prompt q (select_top_excerpts cs q (Some m) 16 6) = (sel, prompt) \<Longrightarrow>
   query_groq_api_aggregate ev cs q (Some k) =
     (case handle_reply ev cs q sel (post ev k prompt) of
        Inl e \<Rightarrow> (insufficient (''Error during processing: '' @ exc_text ev e), [prompt])
      | Inr result \<Rightarrow> (result, [prompt]))"
  unfolding query_groq_api_aggregate_def Let_def by simp

lemma query_cases:
  obtains (sentinel) n where "fst (query_groq_api_aggregate ev cs q key) = insufficient n"
        | (fallback) raw where "cs \<noteq> []" and "sent_excerpts ev cs q \<noteq> []"
            and "fst (query_groq_api_aggregate ev cs q key) = fallback_result q (sent_excerpts ev cs q) raw"
        | (parsed) d where "cs \<noteq> []" and "sent_excerpts ev cs q \<noteq> []"
            and "validate_dict cs (sent_excerpts ev cs q) d = Inr (fst (query_groq_api_aggregate ev cs q key))"
proof (cases key)
  case None
  then have "fst (query_groq_api_aggregate ev cs q key) =
      insufficient ''No commentaries provided or API key missing.''"
    by (simp add: q_none)
  then show ?thesis by (rule sentinel)
next
  case (Some k)
  show ?thesis
  proof (cases "k = [] \<or> cs = []")
    case True
    with Some have "fst (query_groq_api_aggregate ev cs q key) =
        insufficient ''No commentaries provided or API key missing.''"
      by (simp add: q_empty)
    then show ?thesis by (rule sentinel)
  next
    case ok: False
    then have kne: "k \<noteq> []" and csne: "cs \<noteq> []" by simp_all
    show ?thesis
    proof (cases "load_embedding_model ev")
      case None
      with Some kne csne have "fst (query_groq_api_aggregate ev cs q key) =
          insufficient ''Failed to load embedding model for excerpt selection.''"
        by (simp add: q_nomodel)
      then show ?thesis by (rule sentinel)
    next
      case m: (Some model)
      let ?sel0 = "select_top_excerpts cs q (Some model) 16 6"
      show ?thesis
      proof (cases "?sel0 = []")
        case True
        with Some kne csne m have "fst (query_groq_api_aggregate ev cs q key) =
            insufficient (''No relevant excerpts found after selection from ''
                          @ str_nat (length cs) @ '' commentaries.'')"
          by (simp add: q_nosel)
        then show ?thesis by (rule sentinel)
      next
        case ne: False
        obtain sel prompt where pp: "prepare_prompt q ?sel0 = (sel, prompt)"
          by (cases "prepare_prompt q ?sel0")
        have sent: "sent_excerpts ev cs q = sel"
          using m pp by (simp add: sent_excerpts_def)
        have selne: "sel \<noteq> []"
          using prepare_prompt_nonempty[OF ne, of q] pp by simp
        have unfold: "fst (query_groq_api_aggregate ev cs q key) =
            (case handle_reply ev cs q sel (post ev k prompt) of
               Inl e \<Rightarrow> insufficient (''Error during processing: '' @ exc_text ev e)
             | Inr result \<Rightarrow> result)"
          unfolding Some q_main[OF kne csne m ne pp] by (simp split: sum.split)
        show ?thesis
        proof (cases "handle_reply ev cs q sel (post ev k prompt)")
          case (Inl e)
          with unfold have "fst (query_groq_api_aggregate ev cs q key) =
              insufficient (''Error during processing: '' @ exc_text ev e)"
            by simp
          then show ?thesis by (rule sentinel)
        next
          case (Inr r)
          with unfold have res: "fst (query_groq_api_aggregate ev cs q key) = r" by simp
          show ?thesis
          proof (rule handle_reply_cases[OF Inr])
            fix n assume "r = insufficient n"
            with res have "fst (query_groq_api_aggregate ev cs q key) = insufficient n" by simp
            then show ?thesis by (rule sentinel)
          next
            fix raw assume "r = fallback_result q sel raw"
            with res sent have "fst (query_groq_api_aggregate ev cs q key) =
                fallback_result q (sent_excerpts ev cs q) raw" by simp
            with csne selne sent show ?thesis by (intro fallback) simp_all
          next
            fix d assume "validate_dict cs sel d = Inr r"
            with res sent have "validate_dict cs (sent_excerpts ev cs q) d =
                Inr (fst (query_groq_api_aggregate ev cs q key))" by simp
            with csne selne sent show ?thesis by (intro parsed) simp_all
          qed
        qed
      qed
    qed
  qed
qed

text \<open>
  Claim C1. On every return path the ids in \<open>supporting_ids\<close> are ids of the excerpts
  selected and written into the prompt of that call (after the cut to six excerpts, when the
  prompt was too long).
\<close>

theorem supporting_ids_among_sent:
  "set (supporting_ids (fst (query_groq_api_aggregate ev commentaries_data query api_key)))
     \<subseteq> e_id ` set (sent_excerpts ev commentaries_data query)"
proof -
  let ?r = "fst (query_groq_api_aggregate ev commentaries_data query api_key)"
  let ?sent = "sent_excerpts ev commentaries_data query"
  show ?thesis
  proof (rule query_cases[of ev commentaries_data query api_key])
    fix n assume "?r = insufficient n"
    then show ?thesis by (simp add: insufficient_def)
  next
    fix raw assume 2: "?r = fallback_result query ?sent raw"
    have "set (map e_id (slice_to ?sent 3)) \<subseteq> e_id ` set ?sent"
      using set_slice_to_subset[of ?sent 3] by auto
    with 2 show ?thesis by (simp add: fallback_result_def)
  next
    fix d assume 3: "validate_dict commentaries_data ?sent d = Inr ?r"
    from validate_dict_fields(1)[OF 3] have "set (supporting_ids ?r) \<subseteq> set (map e_id ?sent)"
      by (rule validate_ids_subset)
    then show ?thesis by simp
  qed
qed

lemma q_sentinel_fields:
  "summary (insufficient n) = JStr ''INSUFFICIENT_GROUNDED_EVIDENCE''"
  "direction (insufficient n) = ''insufficient_evidence''"
  "supporting_ids (insufficient n) = []"
  "supporting_schools (insufficient n) = []"
  "confidence_score (insufficient n) = 0"
  by (simp_all add: insufficient_def)

text \<open>
  Claim C2. With no API key, an empty API key, no commentaries, or an empty selection (which
  includes the case of no embedding model), the result is the sentinel and no prompt is posted.
\<close>

theorem no_evidence_short_circuit:
  assumes "api_key = None \<or> api_key = Some [] \<or> commentaries_data = []
           \<or> select_top_excerpts commentaries_data query (load_embedding_model ev) 16 6 = []"
  shows "summary (fst (query_groq_api_aggregate ev commentaries_data query api_key))
           = JStr ''INSUFFICIENT_GROUNDED_EVIDENCE''
       \<and> direction (fst (query_groq_api_aggregate ev commentaries_data query api_key))
           = ''insufficient_evidence''
       \<and> supporting_ids (fst (query_groq_api_aggregate ev commentaries_data query api_key)) = []
       \<and> supporting_schools (fst (query_groq_api_aggregate ev commentaries_data query api_key)) = []
       \<and> confidence_score (fst (query_groq_api_aggregate ev commentaries_data query api_key)) = 0
       \<and> snd (query_groq_api_aggregate ev commentaries_data query api_key) = []"
proof -
  obtain n where "query_groq_api_aggregate ev commentaries_data query api_key = (insufficient n, [])"
  proof (cases api_key)
    case None
    then have "query_groq_api_aggregate ev commentaries_data query api_key =
        (insufficient ''No commentaries provided or API key missing.'', [])"
      by (simp add: q_none)
    then show ?thesis by (rule that)
  next
    case (Some k)
    show ?thesis
    proof (cases "k = [] \<or> commentaries_data = []")
      case True
      then have "query_groq_api_aggregate ev commentaries_data query api_key =
          (insufficient ''No commentaries provided or API key missing.'', [])"
        unfolding Some by (rule q_empty)
      then show ?thesis by (rule that)
    next
      case False
      then have kne: "k \<noteq> []" and csne: "commentaries_data \<noteq> []" by simp_all
      show ?thesis
      proof (cases "load_embedding_model ev")
        case None
        have "query_groq_api_aggregate ev commentaries_data query api_key =
            (insufficient ''Failed to load embedding model for excerpt selection.'', [])"
          unfolding Some using kne csne None by (rule q_nomodel)
        then show ?thesis by (rule that)
      next
        case m: (Some model)
        from assms Some kne csne m
        have "select_top_excerpts commentaries_data query (Some model) 16 6 = []" by simp
        from q_nosel[OF kne csne m this]
        have "query_groq_api_aggregate ev commentaries_data query api_key =
            (insufficient (''No relevant excerpts found after selection from ''
                          @ str_nat (length commentaries_data) @ '' commentaries.''), [])"
          unfolding Some .
        then show ?thesis by (rule that)
      qed
    qed
  qed
  then show ?thesis by (simp add: q_sentinel_fields)
qed

lemma ex_short_select: "select_top_excerpts ex_short q model 16 6 = []"
proof -
  have s: "split_text_into_sentences ''Om'' = [''Om'']"
    by (simp add: split_text_into_sentences_def re_split_def sentence_snippets_def strip_def
        is_terminal_def is_space_def split_ws_def max_tokens_def)
  have "candidate_excerpts ex_short 6 = []"
    by (simp add: candidate_excerpts_def ex_short_def s strip_def is_space_def fallback_excerpts_def)
  then show ?thesis by (cases model) (simp_all add: select_top_excerpts_def)
qed

theorem no_evidence_short_circuit_witness:
  "select_top_excerpts ex_short ''duty'' (load_embedding_model (ex_env ''{}'' (JObj []))) 16 6 = []
   \<and> summary (fst (query_groq_api_aggregate (ex_env ''{}'' (JObj [])) ex_short ''duty'' (Some ''key'')))
        = JStr ''INSUFFICIENT_GROUNDED_EVIDENCE''
   \<and> direction (fst (query_groq_api_aggregate (ex_env ''{}'' (JObj [])) ex_short ''duty'' (Some ''key'')))
        = ''insufficient_evidence''
   \<and> supporting_ids (fst (query_groq_api_aggregate (ex_env ''{}'' (JObj [])) ex_short ''duty'' (Some ''key''))) = []
   \<and> supporting_schools (fst (query_groq_api_aggregate (ex_env ''{}'' (JObj [])) ex_short ''duty'' (Some ''key''))) = []
   \<and> confidence_score (fst (query_groq_api_aggregate (ex_env ''{}'' (JObj [])) ex_short ''duty'' (Some ''key''))) = 0
   \<and> snd (query_groq_api_aggregate (ex_env ''{}'' (JObj [])) ex_short ''duty'' (Some ''key'')) = []"
proof -
  have h: "select_top_excerpts ex_short ''duty'' (load_embedding_model (ex_env ''{}'' (JObj []))) 16 6 = []"
    by (rule ex_short_select)
  then have "Some ''key'' = None \<or> Some ''key'' = Some [] \<or> ex_short = []
      \<or> select_top_excerpts ex_short ''duty'' (load_embedding_model (ex_env ''{}'' (JObj []))) 16 6 = []"
    by simp
  from no_evidence_short_circuit[OF this] h show ?thesis by (rule conjI[rotated])
qed

lemma validate_confidence_range:
  assumes "validate_confidence d = Inr mc"
  shows "0 \<le> mc \<and> mc \<le> 1"
proof (cases "map_of d ''confidence_score''")
  case None
  with assms show ?thesis by (simp add: validate_confidence_def)
next
  case (Some v)
  with assms show ?thesis
    by (cases v) (auto simp: validate_confidence_def split: if_splits)
qed

lemma chc_empty: "compute_hybrid_confidence [] total_schools cnt N mc = Inr 0"
  by (simp add: compute_hybrid_confidence_def)

lemma chc_zero_schools:
  "supporting \<noteq> [] \<Longrightarrow> compute_hybrid_confidence supporting 0 cnt N mc = Inl ZeroDivisionError"
  by (simp add: compute_hybrid_confidence_def)

lemma chc_value:
  assumes "supporting \<noteq> []" and "total_schools \<noteq> 0" and "N \<noteq> 0"
  shows "compute_hybrid_confidence supporting total_schools cnt N mc =
         Inr (min ((case mc of
                      Some m \<Rightarrow> 0.5 * m + 0.5 * (0.2 * (real (length (remdups (map e_school supporting)))
                                    / real_of_int (min total_schools 4)) + 0.1 * (real_of_int cnt / real_of_int N))
                    | None \<Rightarrow> 0.2 * (real (length (remdups (map e_school supporting)))
                                    / real_of_int (min total_schools 4)) + 0.1 * (real_of_int cnt / real_of_int N))) 1)"
proof -
  from assms(2) have "min total_schools 4 \<noteq> 0" by (simp add: min_def)
  with assms(1) assms(3) show ?thesis
    by (cases mc) (simp_all add: compute_hybrid_confidence_def Let_def mult.commute)
qed

lemma chc_defined_iff:
  assumes "supporting \<noteq> []"
  shows "(\<exists>c. compute_hybrid_confidence supporting total_schools cnt N mc = Inr c)
         \<longleftrightarrow> total_schools \<noteq> 0 \<and> N \<noteq> 0"
proof (cases "total_schools \<noteq> 0 \<and> N \<noteq> 0")
  case True
  with chc_value[OF assms, of total_schools N cnt mc] show ?thesis by simp
next
  case False
  then have "compute_hybrid_confidence supporting total_schools cnt N mc = Inl ZeroDivisionError"
    using assms by (auto simp: compute_hybrid_confidence_def Let_def min_def)
  with False show ?thesis by simp
qed

lemma chc_range:
  assumes res: "compute_hybrid_confidence supporting total_schools cnt N mc = Inr c"
      and ts: "0 \<le> total_schools" and n: "0 \<le> N" and cnt: "0 \<le> cnt"
      and mc: "\<And>m. mc = Some m \<Longrightarrow> 0 \<le> m \<and> m \<le> 1"
  shows "0 \<le> c \<and> c \<le> 1"
proof (cases "supporting = []")
  case True
  with res show ?thesis by (simp add: compute_hybrid_confidence_def)
next
  case False
  from chc_defined_iff[OF False, of total_schools cnt N mc] res
  have nz: "total_schools \<noteq> 0" "N \<noteq> 0" by auto
  let ?coverage = "real (length (remdups (map e_school supporting))) / real_of_int (min total_schools 4)"
  let ?strength = "real_of_int cnt / real_of_int N"
  let ?computed = "0.2 * ?coverage + 0.1 * ?strength"
  have "0 < min total_schools 4" using ts nz by (simp add: min_def)
  then have cov: "0 \<le> ?coverage" by simp
  have "0 < N" using n nz by simp
  then have str: "0 \<le> ?strength" using cnt by simp
  have comp: "0 \<le> ?computed" using cov str by simp
  have fin: "0 \<le> (case mc of Some m \<Rightarrow> 0.5 * m + 0.5 * ?computed | None \<Rightarrow> ?computed)"
  proof (cases mc)
    case None
    with comp show ?thesis by simp
  next
    case (Some m)
    with mc[OF Some] comp show ?thesis by simp
  qed
  from chc_value[OF False nz, of cnt mc] res
  have "c = min (case mc of Some m \<Rightarrow> 0.5 * m + 0.5 * ?computed | None \<Rightarrow> ?computed) 1"
    by simp
  with fin show ?thesis by simp
qed

lemma validate_dict_confidence:
  assumes "validate_dict cs sel d = Inr r"
  shows "0 \<le> confidence_score r" and "confidence_score r \<le> 1"
    and "supporting_ids r = [] \<Longrightarrow> confidence_score r = 0"
proof -
  from validate_dict_fields(3)[OF assms] obtain mc where
    mc: "validate_confidence d = Inr mc"
    and h: "compute_hybrid_confidence (filter (\<lambda>e. e_id e \<in> set (supporting_ids r)) sel)
             (int (length (remdups (map c_school cs))))
             (int (length (filter (\<lambda>e. e_id e \<in> set (supporting_ids r)) sel)))
             (int (length sel)) (Some mc) = Inr (confidence_score r)"
    by blast
  have "0 \<le> confidence_score r \<and> confidence_score r \<le> 1"
    using h
  proof (rule chc_range)
    fix m assume "Some mc = Some m"
    with validate_confidence_range[OF mc] show "0 \<le> m \<and> m \<le> 1" by simp
  qed simp_all
  then show "0 \<le> confidence_score r" and "confidence_score r \<le> 1" by simp_all
  assume "supporting_ids r = []"
  with h show "confidence_score r = 0" by (simp add: chc_empty)
qed

lemma slice_to_nonempty: "xs \<noteq> [] \<Longrightarrow> 0 < k \<Longrightarrow> slice_to xs k \<noteq> []"
  by (cases xs) (simp_all add: slice_to_def)

text \<open>
  Claim C5. The confidence of every result lies between 0 and 1 and is 0 when no id is cited;
  on the parsed path this is the value of \<^verbatim>\<open>compute_hybrid_confidence\<close>, which returns 0 on an
  empty list of supporting excerpts and, when its counts are positive and the service
  confidence is clamped, a value between 0 and 1.
\<close>

theorem confidence_in_unit_interval:
  "0 \<le> confidence_score (fst (query_groq_api_aggregate ev commentaries_data query api_key))
   \<and> confidence_score (fst (query_groq_api_aggregate ev commentaries_data query api_key)) \<le> 1
   \<and> (supporting_ids (fst (query_groq_api_aggregate ev commentaries_data query api_key)) = []
        \<longrightarrow> confidence_score (fst (query_groq_api_aggregate ev commentaries_data query api_key)) = 0)
   \<and> compute_hybrid_confidence [] total_schools cnt N mc = Inr 0
   \<and> (1 \<le> total_schools \<and> 1 \<le> N \<and> 0 \<le> cnt \<and> (\<forall>m. mc = Some m \<longrightarrow> 0 \<le> m \<and> m \<le> 1)
        \<longrightarrow> (\<exists>c. compute_hybrid_confidence supporting total_schools cnt N mc = Inr c
                  \<and> 0 \<le> c \<and> c \<le> 1))"
proof -
  let ?r = "fst (query_groq_api_aggregate ev commentaries_data query api_key)"
  let ?sent = "sent_excerpts ev commentaries_data query"
  have pipeline: "0 \<le> confidence_score ?r \<and> confidence_score ?r \<le> 1
      \<and> (supporting_ids ?r = [] \<longrightarrow> confidence_score ?r = 0)"
  proof (rule query_cases[of ev commentaries_data query api_key])
    fix n assume "?r = insufficient n"
    then show ?thesis by (simp add: insufficient_def)
  next
    fix raw assume ne: "?sent \<noteq> []" and fb: "?r = fallback_result query ?sent raw"
    from ne have "slice_to ?sent 3 \<noteq> []" by (rule slice_to_nonempty) simp
    with fb show ?thesis by (simp add: fallback_result_def)
  next
    fix d assume "validate_dict commentaries_data ?sent d = Inr ?r"
    from validate_dict_confidence[OF this] show ?thesis by blast
  qed
  have fn: "\<exists>c. compute_hybrid_confidence supporting total_schools cnt N mc = Inr c \<and> 0 \<le> c \<and> c \<le> 1"
    if pre: "1 \<le> total_schools \<and> 1 \<le> N \<and> 0 \<le> cnt \<and> (\<forall>m. mc = Some m \<longrightarrow> 0 \<le> m \<and> m \<le> 1)"
  proof (cases "supporting = []")
    case True
    then show ?thesis by (simp add: chc_empty)
  next
    case False
    from pre have "total_schools \<noteq> 0 \<and> N \<noteq> 0" by auto
    with chc_defined_iff[OF False, of total_schools cnt N mc]
    obtain c where c: "compute_hybrid_confidence supporting total_schools cnt N mc = Inr c" by blast
    have "0 \<le> c \<and> c \<le> 1"
      using c
    proof (rule chc_range)
      fix m assume "mc = Some m"
      with pre show "0 \<le> m \<and> m \<le> 1" by blast
    qed (use pre in simp_all)
    with c show ?thesis by blast
  qed
  from pipeline chc_empty[of total_schools cnt N mc] fn show ?thesis by blast
qed

lemma prepare_prompt_short:
  "length sel \<le> 6 \<Longrightarrow> fst (prepare_prompt q sel) = sel"
  by (simp add: prepare_prompt_def slice_to_def)

lemma parse_response_parsed:
  "parsed_response ev raw = Some p \<Longrightarrow>
   parse_response ev cs q sel raw = validate_result cs sel p"
  by (auto simp: parsed_response_def parse_response_def split: option.splits)

lemma query_parsed:
  assumes key: "key \<noteq> []" and cs: "cs \<noteq> []"
      and m: "load_embedding_model ev = Some model"
      and sel: "select_top_excerpts cs q (Some model) 16 6 \<noteq> []"
      and rep: "post ev key (snd (prepare_prompt q (select_top_excerpts cs q (Some model) 16 6)))
                = Response 200 (Inr raw)"
      and parsed: "parsed_response ev (strip raw) = Some (JObj d)"
  shows "fst (query_groq_api_aggregate ev cs q (Some key)) =
         (case validate_dict cs (sent_excerpts ev cs q) d of
            Inl e \<Rightarrow> insufficient (''Error during processing: '' @ exc_text ev e)
          | Inr r \<Rightarrow> r)"
proof -
  let ?sel0 = "select_top_excerpts cs q (Some model) 16 6"
  obtain s p where pp: "prepare_prompt q ?sel0 = (s, p)" by (cases "prepare_prompt q ?sel0")
  have sent: "sent_excerpts ev cs q = s" using m pp by (simp add: sent_excerpts_def)
  from rep pp have rep': "post ev key p = Response 200 (Inr raw)" by simp
  have "handle_reply ev cs q s (post ev key p) = validate_dict cs s d"
    unfolding rep' by (simp add: handle_reply_def parse_response_parsed[OF parsed] validate_result_def)
  then show ?thesis
    unfolding q_main[OF key cs m sel pp] sent by (simp split: sum.split)
qed

lemma set_validate_schools:
  "map_of d ''supporting_schools'' = Some (JList reported) \<Longrightarrow>
   set (validate_schools sel ids d) = e_school ` {e \<in> set sel. e_id e \<in> set ids}"
  by (auto simp: validate_schools_def)

lemma validate_schools_other:
  "\<not> (\<exists>reported. map_of d ''supporting_schools'' = Some (JList reported)) \<Longrightarrow>
   validate_schools sel ids d = []"
proof (cases "map_of d ''supporting_schools''")
  case None
  then show ?thesis by (simp add: validate_schools_def)
next
  case (Some v)
  assume "\<not> (\<exists>reported. map_of d ''supporting_schools'' = Some (JList reported))"
  with Some show ?thesis by (cases v) (simp_all add: validate_schools_def)
qed

text \<open>
  Claim C6, as amended. For a response that parses to a dictionary: when the dictionary has a
  list under \<open>supporting_schools\<close>, the final list holds exactly the schools of the sent
  excerpts whose ids survived the filter, whatever the reported list contained; when the key is
  missing or its value is not a list, the final list is empty.
\<close>

theorem supporting_schools_recomputed:
  assumes "key \<noteq> []" and "commentaries_data \<noteq> []"
      and "load_embedding_model ev = Some model"
      and "select_top_excerpts commentaries_data query (Some model) 16 6 \<noteq> []"
      and "post ev key (snd (prepare_prompt query
              (select_top_excerpts commentaries_data query (Some model) 16 6)))
           = Response 200 (Inr raw_content)"
      and "parsed_response ev (strip raw_content) = Some (JObj result)"
  shows "((\<exists>reported. map_of result ''supporting_schools'' = Some (JList reported)) \<longrightarrow>
           set (supporting_schools (fst (query_groq_api_aggregate ev commentaries_data query (Some key))))
           = e_school ` {e \<in> set (sent_excerpts ev commentaries_data query).
               e_id e \<in> set (supporting_ids
                  (fst (query_groq_api_aggregate ev commentaries_data query (Some key))))})
       \<and> (\<not> (\<exists>reported. map_of result ''supporting_schools'' = Some (JList reported)) \<longrightarrow>
           supporting_schools (fst (query_groq_api_aggregate ev commentaries_data query (Some key))) = [])"
proof -
  let ?r = "fst (query_groq_api_aggregate ev commentaries_data query (Some key))"
  let ?sent = "sent_excerpts ev commentaries_data query"
  note unfold = query_parsed[OF assms]
  show ?thesis
  proof (cases "validate_dict commentaries_data ?sent result")
    case (Inl e)
    with unfold have "?r = insufficient (''Error during processing: '' @ exc_text ev e)" by simp
    then have "supporting_ids ?r = []" "supporting_schools ?r = []"
      by (simp_all add: insufficient_def)
    then show ?thesis by simp
  next
    case (Inr r)
    with unfold have r: "?r = r" by simp
    from validate_dict_fields(2)[OF Inr]
    have s: "supporting_schools ?r = validate_schools ?sent (supporting_ids ?r) result"
      unfolding r .
    show ?thesis
      unfolding s using set_validate_schools validate_schools_other by blast
  qed
qed

lemma ex_env_fields:
  "load_embedding_model (ex_env raw p) = Some (ex_encoder 0.3 0.5)"
  "post (ex_env raw p) k prompt = Response 200 (Inr raw)"
  "json_loads (ex_env raw p) raw = Some p"
  by (simp_all add: ex_env_def)

lemma ex_selected_eq:
  "select_top_excerpts ex_commentaries ''duty'' (Some (ex_encoder 0.3 0.5)) 16 6 = ex_selected"
  unfolding ex_selected_def by (rule ex_select_ranked)

lemma ex_sent: "sent_excerpts (ex_env raw p) ex_commentaries ''duty'' = ex_selected"
  unfolding sent_excerpts_def ex_env_fields ex_selected_eq
  by (rule prepare_prompt_short) (simp add: ex_selected_def)

lemma ex_query:
  assumes "strip raw = raw"
  shows "fst (query_groq_api_aggregate (ex_env raw (JObj d)) ex_commentaries ''duty'' (Some ''key'')) =
         (case validate_dict ex_commentaries ex_selected d of
            Inl e \<Rightarrow> insufficient (''Error during processing: '' @ exc_text (ex_env raw (JObj d)) e)
          | Inr r \<Rightarrow> r)"
proof -
  have key: "''key'' \<noteq> []" by simp
  have cs: "ex_commentaries \<noteq> []" by (simp add: ex_commentaries_def)
  have sel: "select_top_excerpts ex_commentaries ''duty'' (Some (ex_encoder 0.3 0.5)) 16 6 \<noteq> []"
    unfolding ex_selected_eq by (simp add: ex_selected_def)
  have parsed: "parsed_response (ex_env raw (JObj d)) (strip raw) = Some (JObj d)"
    unfolding assms by (simp add: parsed_response_def ex_env_fields)
  from query_parsed[OF key cs ex_env_fields(1) sel ex_env_fields(2) parsed]
  show ?thesis unfolding ex_sent .
qed

lemma ex_total_schools: "length (remdups (map c_school ex_commentaries)) = 2"
  by (simp add: ex_commentaries_def)

lemma ex_strip:
  "strip ex_raw_hallucinated = ex_raw_hallucinated"
  "strip ex_raw_reported = ex_raw_reported"
  "strip ex_raw_no_schools = ex_raw_no_schools"
  by (simp_all add: strip_def is_space_def ex_raw_hallucinated_def ex_raw_reported_def
        ex_raw_no_schools_def)

lemma ex_ids:
  "validate_ids (map e_id ex_selected) ex_dict_hallucinated = Inr []"
  "validate_ids (map e_id ex_selected) ex_dict_reported = Inr [''C1'']"
  "validate_ids (map e_id ex_selected) ex_dict_no_schools = Inr [''C1'']"
  by (simp_all add: validate_ids_def ex_selected_def ex_excerpt_def ex_dict_hallucinated_def
        ex_dict_reported_def ex_dict_no_schools_def)

lemma ex_directions:
  "validate_direction ex_dict_hallucinated = Inr ''mixed''"
  "validate_direction ex_dict_reported = Inr ''mixed''"
  "validate_direction ex_dict_no_schools = Inr ''mixed''"
  by (simp_all add: validate_direction_def ex_dict_hallucinated_def
        ex_dict_reported_def ex_dict_no_schools_def)

lemma ex_confidences:
  "validate_confidence ex_dict_hallucinated = Inr 0.9"
  "validate_confidence ex_dict_reported = Inr 0"
  "validate_confidence ex_dict_no_schools = Inr 0"
  by (simp_all add: validate_confidence_def ex_dict_hallucinated_def
        ex_dict_reported_def ex_dict_no_schools_def)

lemma total_schools_pos: "cs \<noteq> [] \<Longrightarrow> 1 \<le> int (length (remdups (map c_school cs)))"
proof -
  assume "cs \<noteq> []"
  then have "remdups (map c_school cs) \<noteq> []" by simp
  then show ?thesis by (cases "remdups (map c_school cs)") simp_all
qed

lemma chc_call_site:
  assumes "cs \<noteq> []" and "sel \<noteq> []"
  shows "\<exists>h. compute_hybrid_confidence (filter (\<lambda>e. e_id e \<in> set ids) sel)
             (int (length (remdups (map c_school cs))))
             (int (length (filter (\<lambda>e. e_id e \<in> set ids) sel)))
             (int (length sel)) (Some mc) = Inr h"
proof (cases "filter (\<lambda>e. e_id e \<in> set ids) sel = []")
  case True
  then show ?thesis by (simp add: chc_empty)
next
  case False
  have "int (length (remdups (map c_school cs))) \<noteq> 0"
    using total_schools_pos[OF assms(1)] by linarith
  moreover have "int (length sel) \<noteq> 0" using assms(2) by simp
  ultimately have "int (length (remdups (map c_school cs))) \<noteq> 0 \<and> int (length sel) \<noteq> 0" ..
  with chc_defined_iff[OF False] show ?thesis by blast
qed

lemma validate_dict_defined:
  assumes "validate_direction d = Inr dir"
      and "validate_ids (map e_id sel) d = Inr ids"
      and "validate_confidence d = Inr mc"
      and "cs \<noteq> []" and "sel \<noteq> []"
  shows "\<exists>r. validate_dict cs sel d = Inr r \<and> supporting_ids r = ids
             \<and> supporting_schools r = validate_schools sel ids d"
proof -
  from chc_call_site[OF assms(4) assms(5), of ids mc] obtain h where
    "compute_hybrid_confidence (filter (\<lambda>e. e_id e \<in> set ids) sel)
             (int (length (remdups (map c_school cs))))
             (int (length (filter (\<lambda>e. e_id e \<in> set ids) sel)))
             (int (length sel)) (Some mc) = Inr h" by blast
  then show ?thesis
    by (simp add: validate_dict_def assms(1) assms(2) assms(3) Let_def)
qed

lemma filter_ids_error: "filter_ids p xs = Inl e \<Longrightarrow> e = TypeError"
proof (induction xs)
  case Nil
  then show ?case by simp
next
  case (Cons x xs)
  show ?case
  proof (cases "hashable x")
    case False
    with Cons.prems show ?thesis by simp
  next
    case True
    with Cons.prems have "filter_ids p xs = Inl e" by (simp split: sum.splits)
    then show ?thesis by (rule Cons.IH)
  qed
qed

lemma validate_ids_error: "validate_ids p d = Inl e \<Longrightarrow> e = TypeError"
proof -
  assume a: "validate_ids p d = Inl e"
  show ?thesis
  proof (cases "map_of d ''supporting_ids''")
    case None
    with a show ?thesis by (simp add: validate_ids_def)
  next
    case (Some v)
    show ?thesis
    proof (cases v)
      case (JList xs)
      with a Some have "filter_ids p xs = Inl e" by (simp add: validate_ids_def)
      then show ?thesis by (rule filter_ids_error)
    qed (use a Some in \<open>simp_all add: validate_ids_def\<close>)
  qed
qed

lemma validate_direction_error: "validate_direction d = Inl e \<Longrightarrow> e = TypeError"
proof -
  assume a: "validate_direction d = Inl e"
  show ?thesis
  proof (cases "map_of d ''direction''")
    case None
    with a show ?thesis by (simp add: validate_direction_def)
  next
    case (Some v)
    with a show ?thesis
      by (cases v) (simp_all add: validate_direction_def split: if_splits)
  qed
qed

lemma validate_confidence_error: "validate_confidence d = Inl e \<Longrightarrow> e = OverflowError"
proof -
  assume a: "validate_confidence d = Inl e"
  show ?thesis
  proof (cases "map_of d ''confidence_score''")
    case None
    with a show ?thesis by (simp add: validate_confidence_def)
  next
    case (Some v)
    with a show ?thesis
      by (cases v) (simp_all add: validate_confidence_def split: if_splits)
  qed
qed

lemma validate_dict_error:
  assumes cs: "cs \<noteq> []" and sel: "sel \<noteq> []" and err: "validate_dict cs sel d = Inl e"
  shows "e = TypeError \<or> e = OverflowError"
proof (cases "validate_direction d")
  case (Inl e1)
  with err have "e = e1" by (simp add: validate_dict_def)
  with validate_direction_error[OF Inl] show ?thesis by simp
next
  case dir: (Inr dir)
  show ?thesis
  proof (cases "validate_ids (map e_id sel) d")
    case (Inl e1)
    with err dir have "e = e1" by (simp add: validate_dict_def)
    with validate_ids_error[OF Inl] show ?thesis by simp
  next
    case ids: (Inr ids)
    show ?thesis
    proof (cases "validate_confidence d")
      case (Inl e1)
      with err dir ids have "e = e1" by (simp add: validate_dict_def)
      with validate_confidence_error[OF Inl] show ?thesis by simp
    next
      case (Inr mc)
      from validate_dict_defined[OF dir ids Inr cs sel] err show ?thesis by auto
    qed
  qed
qed

lemma ex_nonempty: "ex_commentaries \<noteq> []" "ex_selected \<noteq> []"
  by (simp_all add: ex_commentaries_def ex_selected_def)

lemma ex_validate_hallucinated:
  "\<exists>r. validate_dict ex_commentaries ex_selected ex_dict_hallucinated = Inr r
       \<and> supporting_ids r = []
       \<and> supporting_schools r = validate_schools ex_selected [] ex_dict_hallucinated"
  by (rule validate_dict_defined[OF ex_directions(1) ex_ids(1) ex_confidences(1) ex_nonempty])

lemma ex_validate_reported:
  "\<exists>r. validate_dict ex_commentaries ex_selected ex_dict_reported = Inr r
       \<and> supporting_ids r = [''C1'']
       \<and> supporting_schools r = validate_schools ex_selected [''C1''] ex_dict_reported"
  by (rule validate_dict_defined[OF ex_directions(2) ex_ids(2) ex_confidences(2) ex_nonempty])

lemma ex_validate_no_schools:
  "\<exists>r. validate_dict ex_commentaries ex_selected ex_dict_no_schools = Inr r
       \<and> supporting_ids r = [''C1'']
       \<and> supporting_schools r = validate_schools ex_selected [''C1''] ex_dict_no_schools"
  by (rule validate_dict_defined[OF ex_directions(3) ex_ids(3) ex_confidences(3) ex_nonempty])

lemma ex_schools:
  "validate_schools ex_selected [''C1''] ex_dict_reported = [''Advaita'']"
  "validate_schools ex_selected [''C1''] ex_dict_no_schools = []"
  by (simp_all add: validate_schools_def ex_dict_reported_def ex_dict_no_schools_def
        ex_selected_def ex_excerpt_def)

lemma ex_chc:
  "compute_hybrid_confidence [ex_excerpt ''C1'' ''Advaita'' ''Act without attachment'' (Some 0.3)]
     2 1 2 (Some 0.8) = Inr 0.475"
  by (simp add: compute_hybrid_confidence_def ex_excerpt_def)

lemma ex_result_hallucinated:
  "supporting_ids (fst (query_groq_api_aggregate (ex_env ex_raw_hallucinated (JObj ex_dict_hallucinated))
      ex_commentaries ''duty'' (Some ''key''))) = []"
proof -
  from ex_validate_hallucinated obtain r where
    "validate_dict ex_commentaries ex_selected ex_dict_hallucinated = Inr r" "supporting_ids r = []"
    by blast
  then show ?thesis unfolding ex_query[OF ex_strip(1)] by simp
qed

lemma ex_result_reported:
  "supporting_ids (fst (query_groq_api_aggregate (ex_env ex_raw_reported (JObj ex_dict_reported))
      ex_commentaries ''duty'' (Some ''key''))) = [''C1'']"
  "supporting_schools (fst (query_groq_api_aggregate (ex_env ex_raw_reported (JObj ex_dict_reported))
      ex_commentaries ''duty'' (Some ''key''))) = [''Advaita'']"
proof -
  from ex_validate_reported obtain r where
    "validate_dict ex_commentaries ex_selected ex_dict_reported = Inr r" "supporting_ids r = [''C1'']"
    "supporting_schools r = validate_schools ex_selected [''C1''] ex_dict_reported"
    by blast
  then show
    "supporting_ids (fst (query_groq_api_aggregate (ex_env ex_raw_reported (JObj ex_dict_reported))
      ex_commentaries ''duty'' (Some ''key''))) = [''C1'']"
    "supporting_schools (fst (query_groq_api_aggregate (ex_env ex_raw_reported (JObj ex_dict_reported))
      ex_commentaries ''duty'' (Some ''key''))) = [''Advaita'']"
    unfolding ex_query[OF ex_strip(2)] by (simp_all add: ex_schools)
qed

lemma ex_result_no_schools:
  "supporting_ids (fst (query_groq_api_aggregate (ex_env ex_raw_no_schools (JObj ex_dict_no_schools))
      ex_commentaries ''duty'' (Some ''key''))) = [''C1'']"
  "supporting_schools (fst (query_groq_api_aggregate (ex_env ex_raw_no_schools (JObj ex_dict_no_schools))
      ex_commentaries ''duty'' (Some ''key''))) = []"
proof -
  from ex_validate_no_schools obtain r where
    "validate_dict ex_commentaries ex_selected ex_dict_no_schools = Inr r" "supporting_ids r = [''C1'']"
    "supporting_schools r = validate_schools ex_selected [''C1''] ex_dict_no_schools"
    by blast
  then show
    "supporting_ids (fst (query_groq_api_aggregate (ex_env ex_raw_no_schools (JObj ex_dict_no_schools))
      ex_commentaries ''duty'' (Some ''key''))) = [''C1'']"
    "supporting_schools (fst (query_groq_api_aggregate (ex_env ex_raw_no_schools (JObj ex_dict_no_schools))
      ex_commentaries ''duty'' (Some ''key''))) = []"
    unfolding ex_query[OF ex_strip(3)] by (simp_all add: ex_schools)
qed

theorem confidence_in_unit_interval_witness:
  "supporting_ids (fst (query_groq_api_aggregate (ex_env ex_raw_hallucinated (JObj ex_dict_hallucinated))
      ex_commentaries ''duty'' (Some ''key''))) = []
   \<and> confidence_score (fst (query_groq_api_aggregate (ex_env ex_raw_hallucinated (JObj ex_dict_hallucinated))
      ex_commentaries ''duty'' (Some ''key''))) = 0
   \<and> (1::int) \<le> 2 \<and> (0::int) \<le> 1 \<and> (0::real) \<le> 0.8 \<and> (0.8::real) \<le> 1
   \<and> compute_hybrid_confidence [ex_excerpt ''C1'' ''Advaita'' ''Act without attachment'' (Some 0.3)]
        2 1 2 (Some 0.8) = Inr 0.475
   \<and> (0::real) \<le> 0.475 \<and> (0.475::real) \<le> 1"
proof -
  note t = confidence_in_unit_interval[of "ex_env ex_raw_hallucinated (JObj ex_dict_hallucinated)"
      ex_commentaries "''duty''" "Some ''key''" 2 1 2 "Some 0.8"
      "[ex_excerpt ''C1'' ''Advaita'' ''Act without attachment'' (Some 0.3)]"]
  from t ex_result_hallucinated
  have "confidence_score (fst (query_groq_api_aggregate (ex_env ex_raw_hallucinated (JObj ex_dict_hallucinated))
      ex_commentaries ''duty'' (Some ''key''))) = 0"
    by blast
  with ex_result_hallucinated ex_chc show ?thesis by simp
qed

theorem supporting_schools_recomputed_witness:
  "''key'' \<noteq> [] \<and> ex_commentaries \<noteq> []
   \<and> load_embedding_model (ex_env ex_raw_reported (JObj ex_dict_reported)) = Some (ex_encoder 0.3 0.5)
   \<and> select_top_excerpts ex_commentaries ''duty'' (Some (ex_encoder 0.3 0.5)) 16 6 \<noteq> []
   \<and> post (ex_env ex_raw_reported (JObj ex_dict_reported)) ''key''
        (snd (prepare_prompt ''duty''
           (select_top_excerpts ex_commentaries ''duty'' (Some (ex_encoder 0.3 0.5)) 16 6)))
      = Response 200 (Inr ex_raw_reported)
   \<and> parsed_response (ex_env ex_raw_reported (JObj ex_dict_reported)) (strip ex_raw_reported)
      = Some (JObj ex_dict_reported)
   \<and> map_of ex_dict_reported ''supporting_schools'' = Some (JList [JStr ''Dvaita'', JStr ''Invented''])
   \<and> set (supporting_schools (fst (query_groq_api_aggregate
          (ex_env ex_raw_reported (JObj ex_dict_reported)) ex_commentaries ''duty'' (Some ''key''))))
      = e_school ` {e \<in> set (sent_excerpts (ex_env ex_raw_reported (JObj ex_dict_reported))
                               ex_commentaries ''duty'').
            e_id e \<in> set (supporting_ids (fst (query_groq_api_aggregate
              (ex_env ex_raw_reported (JObj ex_dict_reported)) ex_commentaries ''duty'' (Some ''key''))))}
   \<and> supporting_schools (fst (query_groq_api_aggregate
          (ex_env ex_raw_reported (JObj ex_dict_reported)) ex_commentaries ''duty'' (Some ''key'')))
      = [''Advaita'']"
proof -
  have h1: "''key'' \<noteq> []" by simp
  have h4: "select_top_excerpts ex_commentaries ''duty'' (Some (ex_encoder 0.3 0.5)) 16 6 \<noteq> []"
    unfolding ex_selected_eq by (rule ex_nonempty(2))
  have h6: "parsed_response (ex_env ex_raw_reported (JObj ex_dict_reported)) (strip ex_raw_reported)
      = Some (JObj ex_dict_reported)"
    unfolding ex_strip by (simp add: parsed_response_def ex_env_fields)
  have h7: "map_of ex_dict_reported ''supporting_schools'' = Some (JList [JStr ''Dvaita'', JStr ''Invented''])"
    by (simp add: ex_dict_reported_def)
  from supporting_schools_recomputed[OF h1 ex_nonempty(1) ex_env_fields(1) h4 ex_env_fields(2) h6] h7
  have "set (supporting_schools (fst (query_groq_api_aggregate
          (ex_env ex_raw_reported (JObj ex_dict_reported)) ex_commentaries ''duty'' (Some ''key''))))
      = e_school ` {e \<in> set (sent_excerpts (ex_env ex_raw_reported (JObj ex_dict_reported))
                               ex_commentaries ''duty'').
            e_id e \<in> set (supporting_ids (fst (query_groq_api_aggregate
              (ex_env ex_raw_reported (JObj ex_dict_reported)) ex_commentaries ''duty'' (Some ''key''))))}"
    by blast
  with h1 ex_nonempty(1) ex_env_fields(1) h4 ex_env_fields(2) h6 h7 ex_result_reported(2)
  show ?thesis by (intro conjI)
qed

text \<open>
  Claim C6 as stated fails: when the service's dictionary has no \<open>supporting_schools\<close> key
  the final list is set to the empty list, although the id C1 survives the filter and its
  excerpt belongs to a school.
\<close>

theorem supporting_schools_counterexample:
  "supporting_ids (fst (query_groq_api_aggregate (ex_env ex_raw_no_schools (JObj ex_dict_no_schools))
      ex_commentaries ''duty'' (Some ''key''))) = [''C1'']
   \<and> supporting_schools (fst (query_groq_api_aggregate (ex_env ex_raw_no_schools (JObj ex_dict_no_schools))
      ex_commentaries ''duty'' (Some ''key''))) = []
   \<and> map e_id (sent_excerpts (ex_env ex_raw_no_schools (JObj ex_dict_no_schools)) ex_commentaries ''duty'')
      = [''C2'', ''C1'']
   \<and> map e_school (sent_excerpts (ex_env ex_raw_no_schools (JObj ex_dict_no_schools)) ex_commentaries ''duty'')
      = [''Dvaita'', ''Advaita'']"
  using ex_result_no_schools
  by (simp add: ex_sent ex_selected_def ex_excerpt_def)

text \<open>
  Claim C10. With a non-empty list of supporting excerpts \<^verbatim>\<open>compute_hybrid_confidence\<close> raises
  ZeroDivisionError for \<open>total_schools = 0\<close>, so for a count it returns a value only if
  \<open>total_schools\<close> is at least 1. At its call site the selection is not empty, hence the
  commentary pool is not empty and the number of distinct schools is at least 1, and the
  validation of a parsed dictionary never ends in ZeroDivisionError.
\<close>

theorem division_by_zero_unreachable:
  "(supporting \<noteq> [] \<longrightarrow>
      compute_hybrid_confidence supporting 0 cnt N mc = Inl ZeroDivisionError)
   \<and> (supporting \<noteq> [] \<and> 0 \<le> total_schools
        \<and> compute_hybrid_confidence supporting total_schools cnt N mc = Inr c
      \<longrightarrow> 1 \<le> total_schools)
   \<and> (select_top_excerpts commentaries_data query (load_embedding_model ev) 16 6 \<noteq> []
      \<longrightarrow> 1 \<le> int (length (remdups (map c_school commentaries_data)))
          \<and> validate_dict commentaries_data (sent_excerpts ev commentaries_data query) result
              \<noteq> Inl ZeroDivisionError)"
proof -
  have a: "compute_hybrid_confidence supporting 0 cnt N mc = Inl ZeroDivisionError"
    if "supporting \<noteq> []"
    using that by (rule chc_zero_schools)
  have b: "1 \<le> total_schools"
    if "supporting \<noteq> [] \<and> 0 \<le> total_schools
        \<and> compute_hybrid_confidence supporting total_schools cnt N mc = Inr c"
  proof -
    from that have ne: "supporting \<noteq> []" and nn: "0 \<le> total_schools"
      and r: "compute_hybrid_confidence supporting total_schools cnt N mc = Inr c" by simp_all
    from chc_defined_iff[OF ne, of total_schools cnt N mc] r have "total_schools \<noteq> 0" by blast
    with nn show ?thesis by simp
  qed
  have c: "1 \<le> int (length (remdups (map c_school commentaries_data)))
          \<and> validate_dict commentaries_data (sent_excerpts ev commentaries_data query) result
              \<noteq> Inl ZeroDivisionError"
    if sel: "select_top_excerpts commentaries_data query (load_embedding_model ev) 16 6 \<noteq> []"
  proof -
    have cs: "commentaries_data \<noteq> []"
    proof
      assume "commentaries_data = []"
      then have "select_top_excerpts commentaries_data query (load_embedding_model ev) 16 6 = []"
        by (cases "load_embedding_model ev") (simp_all add: select_top_excerpts_def)
      with sel show False by simp
    qed
    have sent: "sent_excerpts ev commentaries_data query \<noteq> []"
      unfolding sent_excerpts_def using sel by (rule prepare_prompt_nonempty)
    have "validate_dict commentaries_data (sent_excerpts ev commentaries_data query) result
        \<noteq> Inl ZeroDivisionError"
    proof
      assume "validate_dict commentaries_data (sent_excerpts ev commentaries_data query) result
        = Inl ZeroDivisionError"
      from validate_dict_error[OF cs sent this] show False by simp
    qed
    with total_schools_pos[OF cs] show ?thesis by simp
  qed
  from a b c show ?thesis by blast
qed

theorem division_by_zero_unreachable_witness:
  "[ex_excerpt ''C1'' ''Advaita'' ''Act without attachment'' (Some 0.3)] \<noteq> []
   \<and> compute_hybrid_confidence [ex_excerpt ''C1'' ''Advaita'' ''Act without attachment'' (Some 0.3)]
        0 1 2 (Some 0.8) = Inl ZeroDivisionError
   \<and> (0::int) \<le> 2
   \<and> compute_hybrid_confidence [ex_excerpt ''C1'' ''Advaita'' ''Act without attachment'' (Some 0.3)]
        2 1 2 (Some 0.8) = Inr 0.475
   \<and> (1::int) \<le> 2
   \<and> select_top_excerpts ex_commentaries ''duty''
        (load_embedding_model (ex_env ex_raw_reported (JObj ex_dict_reported))) 16 6 \<noteq> []
   \<and> 1 \<le> int (length (remdups (map c_school ex_commentaries)))
   \<and> validate_dict ex_commentaries
        (sent_excerpts (ex_env ex_raw_reported (JObj ex_dict_reported)) ex_commentaries ''duty'')
        ex_dict_reported \<noteq> Inl ZeroDivisionError"
proof -
  have ne: "[ex_excerpt ''C1'' ''Advaita'' ''Act without attachment'' (Some 0.3)] \<noteq> []" by simp
  have sel: "select_top_excerpts ex_commentaries ''duty''
        (load_embedding_model (ex_env ex_raw_reported (JObj ex_dict_reported))) 16 6 \<noteq> []"
    unfolding ex_env_fields ex_selected_eq by (rule ex_nonempty(2))
  note t = division_by_zero_unreachable[of
      "[ex_excerpt ''C1'' ''Advaita'' ''Act without attachment'' (Some 0.3)]" 1 2 "Some 0.8" 2 "0.475"
      ex_commentaries "''duty''" "ex_env ex_raw_reported (JObj ex_dict_reported)" ex_dict_reported]
  from t ne have z: "compute_hybrid_confidence
      [ex_excerpt ''C1'' ''Advaita'' ''Act without attachment'' (Some 0.3)] 0 1 2 (Some 0.8)
      = Inl ZeroDivisionError" by blast
  from t sel have p: "1 \<le> int (length (remdups (map c_school ex_commentaries)))
      \<and> validate_dict ex_commentaries
        (sent_excerpts (ex_env ex_raw_reported (JObj ex_dict_reported)) ex_commentaries ''duty'')
        ex_dict_reported \<noteq> Inl ZeroDivisionError" by blast
  from ne z ex_chc sel p show ?thesis by simp
qed

end
